theory Spec2Isabelle
  imports Complex_Main
begin

section \<open>Python strings\<close>

text \<open>
  Strings are character lists; a character is a code point below 256. The functions
  below are the \<open>str\<close> methods that \<open>cache.py\<close> calls. White space is what
  \<open>str.isspace\<close> accepts: the ASCII separators, the next-line control \<open>0x85\<close> and the
  no-break space \<open>0xA0\<close>. The letters with two cases are the 26 of ASCII and the 30
  accented ones from \<open>0xC0\<close> to \<open>0xDE\<close> (capitals) and from \<open>0xE0\<close> to \<open>0xFE\<close>
  (small), without the signs \<open>0xD7\<close> and \<open>0xF7\<close>.
\<close>

definition whitespace :: "char list" where
  "whitespace = [CHR 0x09, CHR 0x0A, CHR 0x0B, CHR 0x0C, CHR 0x0D,
                 CHR 0x1C, CHR 0x1D, CHR 0x1E, CHR 0x1F, CHR 0x20, CHR 0x85, CHR 0xA0]"

definition is_space :: "char \<Rightarrow> bool" where
  "is_space c = (c \<in> set whitespace)"

definition str_strip :: "string \<Rightarrow> string" where
  \<comment> \<open>\<open>s.strip()\<close>\<close>
  "str_strip s = rev (dropWhile is_space (rev (dropWhile is_space s)))"

definition capitals :: "char list" where
  "capitals = ''ABCDEFGHIJKLMNOPQRSTUVWXYZ'' @
     [CHR 0xC0, CHR 0xC1, CHR 0xC2, CHR 0xC3, CHR 0xC4, CHR 0xC5, CHR 0xC6, CHR 0xC7,
      CHR 0xC8, CHR 0xC9, CHR 0xCA, CHR 0xCB, CHR 0xCC, CHR 0xCD, CHR 0xCE, CHR 0xCF,
      CHR 0xD0, CHR 0xD1, CHR 0xD2, CHR 0xD3, CHR 0xD4, CHR 0xD5, CHR 0xD6,
      CHR 0xD8, CHR 0xD9, CHR 0xDA, CHR 0xDB, CHR 0xDC, CHR 0xDD, CHR 0xDE]"

definition smalls :: "char list" where
  "smalls = ''abcdefghijklmnopqrstuvwxyz'' @
     [CHR 0xE0, CHR 0xE1, CHR 0xE2, CHR 0xE3, CHR 0xE4, CHR 0xE5, CHR 0xE6, CHR 0xE7,
      CHR 0xE8, CHR 0xE9, CHR 0xEA, CHR 0xEB, CHR 0xEC, CHR 0xED, CHR 0xEE, CHR 0xEF,
      CHR 0xF0, CHR 0xF1, CHR 0xF2, CHR 0xF3, CHR 0xF4, CHR 0xF5, CHR 0xF6,
      CHR 0xF8, CHR 0xF9, CHR 0xFA, CHR 0xFB, CHR 0xFC, CHR 0xFD, CHR 0xFE]"

definition lower_char :: "char \<Rightarrow> char" where
  "lower_char c = (case map_of (zip capitals smalls) c of Some d \<Rightarrow> d | None \<Rightarrow> c)"

definition upper_char :: "char \<Rightarrow> char" where
  "upper_char c = (case map_of (zip smalls capitals) c of Some d \<Rightarrow> d | None \<Rightarrow> c)"

definition str_lower :: "string \<Rightarrow> string" where
  \<comment> \<open>\<open>s.lower()\<close>\<close>
  "str_lower s = map lower_char s"

text \<open>
  \<open>s.upper()\<close> writes the sharp s (\<open>0xDF\<close>) as \<open>SS\<close>. The capitals of the micro
  sign (\<open>0xB5\<close>) and of the y with diaeresis (\<open>0xFF\<close>) are code points above 255, which
  a character list cannot hold: \<open>str_upper\<close> is \<open>s.upper()\<close> for the strings without these
  two characters, and leaves the two as they are.
\<close>

definition str_upper :: "string \<Rightarrow> string" where
  "str_upper s = concat (map (\<lambda>c. if c = CHR 0xDF then ''SS'' else [upper_char c]) s)"

definition startswith :: "string \<Rightarrow> string \<Rightarrow> bool" where
  \<comment> \<open>\<open>s.startswith(p)\<close>\<close>
  "startswith s p = (take (length p) s = p)"

fun str_contains :: "string \<Rightarrow> string \<Rightarrow> bool" where
  \<comment> \<open>\<open>sub in s\<close>\<close>
  "str_contains sub [] = (sub = [])"
| "str_contains sub (c # cs) = (startswith (c # cs) sub \<or> str_contains sub cs)"

text \<open>
  \<open>s.split(sep)\<close> for a non-empty separator (every separator in \<open>cache.py\<close> is a
  non-empty literal). The counter skips the rest of a separator that has just matched;
  the accumulator holds the current piece, reversed.
\<close>

fun split_go :: "string \<Rightarrow> nat \<Rightarrow> string \<Rightarrow> string \<Rightarrow> string list" where
  "split_go sep k acc [] = [rev acc]"
| "split_go sep (Suc k) acc (c # cs) = split_go sep k acc cs"
| "split_go sep 0 acc (c # cs) =
     (if startswith (c # cs) sep then rev acc # split_go sep (length sep - 1) [] cs
      else split_go sep 0 (c # acc) cs)"

definition str_split :: "string \<Rightarrow> string \<Rightarrow> string list" where
  "str_split sep s = split_go sep 0 [] s"

definition str_rsplit1 :: "string \<Rightarrow> string \<Rightarrow> string list" where
  \<comment> \<open>\<open>s.rsplit(sep, 1)\<close>: cut at the last occurrence of \<open>sep\<close>, if there is one\<close>
  "str_rsplit1 sep s =
     (case str_split (rev sep) (rev s) of
        a # b # rest \<Rightarrow>
          [rev (concat (b # map (\<lambda>p. rev sep @ p) rest)), rev a]
      | _ \<Rightarrow> [s])"

definition str_join :: "string \<Rightarrow> string list \<Rightarrow> string" where
  \<comment> \<open>\<open>sep.join(parts)\<close>\<close>
  "str_join sep parts =
     (case parts of [] \<Rightarrow> [] | p # ps \<Rightarrow> p @ concat (map (\<lambda>q. sep @ q) ps))"

definition str_replace :: "string \<Rightarrow> string \<Rightarrow> string \<Rightarrow> string" where
  \<comment> \<open>\<open>s.replace(old, new)\<close>\<close>
  "str_replace old new s = str_join new (str_split old s)"

definition split_words :: "string \<Rightarrow> string list" where
  \<comment> \<open>\<open>s.split()\<close>: the runs of non-whitespace characters\<close>
  "split_words s =
     filter (\<lambda>w. w \<noteq> [])
       (foldr (\<lambda>c ws. if is_space c then [] # ws
                      else (case ws of [] \<Rightarrow> [[c]] | w # r \<Rightarrow> (c # w) # r)) s [[]])"

section \<open>Exceptions\<close>

datatype error =
    ValueError              \<comment> \<open>\<open>errors.ValueError\<close>, the validation error\<close>
  | LoadError               \<comment> \<open>\<open>errors.LoadError\<close>\<close>
  | PMOnlyException         \<comment> \<open>\<open>errors.PMOnlyException\<close>\<close>
  | TransportError          \<comment> \<open>any other \<open>errors.Error\<close>, raised by the session\<close>
  | PyValueError            \<comment> \<open>the builtin \<open>ValueError\<close>\<close>
  | PyTypeError
  | PyAttributeError
  | PyIndexError
  | PyKeyError
  | PyOverflowError
  | StopIteration
  | RuntimeError

fun is_ValueError :: "error \<Rightarrow> bool" where
  \<comment> \<open>what \<open>except ValueError\<close> catches: \<open>errors.ValueError\<close> derives from the builtin\<close>
  "is_ValueError ValueError = True"
| "is_ValueError PyValueError = True"
| "is_ValueError _ = False"

definition index :: "'a list \<Rightarrow> nat \<Rightarrow> error + 'a" where
  \<comment> \<open>\<open>xs[i]\<close> for \<open>i \<ge> 0\<close>\<close>
  "index xs i = (if i < length xs then Inr (xs ! i) else Inl PyIndexError)"

definition last_item :: "'a list \<Rightarrow> error + 'a" where
  \<comment> \<open>\<open>xs[-1]\<close>\<close>
  "last_item xs = (if xs = [] then Inl PyIndexError else Inr (last xs))"

definition bind :: "error + 'a \<Rightarrow> ('a \<Rightarrow> error + 'b) \<Rightarrow> error + 'b" where
  "bind r f = (case r of Inl e \<Rightarrow> Inl e | Inr v \<Rightarrow> f v)"

definition attr_of :: "'a option \<Rightarrow> error + 'a" where
  \<comment> \<open>an attribute or method of the result of \<open>find\<close>: \<open>None\<close> has none\<close>
  "attr_of x = (case x of None \<Rightarrow> Inl PyAttributeError | Some v \<Rightarrow> Inr v)"

section \<open>The enumerations \<open>Type\<close> and \<open>Size\<close>\<close>

datatype Type =
    traditional | multicache | mystery | letterbox | event | mega_event | giga_event
  | earthcache | cito | webcam | virtual | wherigo | lost_and_found_event | project_ape
  | groundspeak_hq | gps_adventures_exhibit | groundspeak_block_party | locationless

text \<open>
  \<open>unknown\<close>, \<open>cache_in_trash_out_event\<close> and \<open>reverse\<close> are aliases: in a Python
  \<open>Enum\<close> a second name for a value is the same member.
\<close>

abbreviation unknown :: Type where "unknown \<equiv> mystery"
abbreviation cache_in_trash_out_event :: Type where "cache_in_trash_out_event \<equiv> cito"
abbreviation reverse :: Type where "reverse \<equiv> locationless"

fun Type_value :: "Type \<Rightarrow> string" where
  "Type_value traditional = ''2''"
| "Type_value multicache = ''3''"
| "Type_value mystery = ''8''"
| "Type_value letterbox = ''5''"
| "Type_value event = ''6''"
| "Type_value mega_event = ''mega''"
| "Type_value giga_event = ''giga''"
| "Type_value earthcache = ''137''"
| "Type_value cito = ''13''"
| "Type_value webcam = ''11''"
| "Type_value virtual = ''4''"
| "Type_value wherigo = ''1858''"
| "Type_value lost_and_found_event = ''10Years_32''"
| "Type_value project_ape = ''ape_32''"
| "Type_value groundspeak_hq = ''HQ_32''"
| "Type_value gps_adventures_exhibit = ''1304''"
| "Type_value groundspeak_block_party = ''4738''"
| "Type_value locationless = ''12''"

definition Type_members :: "Type list" where
  "Type_members =
     [traditional, multicache, mystery, letterbox, event, mega_event, giga_event,
      earthcache, cito, webcam, virtual, wherigo, lost_and_found_event, project_ape,
      groundspeak_hq, gps_adventures_exhibit, groundspeak_block_party, locationless]"

definition Type_call :: "string \<Rightarrow> error + Type" where
  \<comment> \<open>\<open>Type(value)\<close>: the member with this value, else the builtin \<open>ValueError\<close>\<close>
  "Type_call v =
     (case List.find (\<lambda>m. Type_value m = v) Type_members of
        Some m \<Rightarrow> Inr m | None \<Rightarrow> Inl PyValueError)"

definition Type_from_filename :: "string \<Rightarrow> error + Type" where
  "Type_from_filename filename =
     Type_call (if filename = ''earthcache'' then ''137'' else filename)"

definition Type_name_mapping :: "(string \<times> Type) list" where
  "Type_name_mapping =
     [(''traditional'', traditional),
      (''multi-cache'', multicache),
      (''mystery'', mystery),
      (''unknown'', unknown),
      (''letterbox hybrid'', letterbox),
      (''event'', event),
      (''mega-event'', mega_event),
      (''giga-event'', giga_event),
      (''earthcache'', earthcache),
      (''cito'', cito),
      (''cache in trash out event'', cache_in_trash_out_event),
      (''webcam'', webcam),
      (''virtual'', virtual),
      (''wherigo'', wherigo),
      (''lost and found event'', lost_and_found_event),
      (''project ape'', project_ape),
      (''groundspeak hq'', groundspeak_hq),
      (''gps adventures exhibit'', gps_adventures_exhibit),
      (''groundspeak block party'', groundspeak_block_party),
      (''locationless (reverse)'', locationless)]"

definition Type_from_string :: "string \<Rightarrow> error + Type" where
  "Type_from_string name =
     (let name = str_replace '' Geocache'' '''' name;
          name = str_replace '' Cache'' '''' name;
          name = str_strip (str_lower name)
      in case map_of Type_name_mapping name of
           Some t \<Rightarrow> Inr t | None \<Rightarrow> Inl ValueError)"

datatype Size = micro | small | regular | large | not_chosen | virtual_size | other

fun Size_value :: "Size \<Rightarrow> string" where
  "Size_value micro = ''micro''"
| "Size_value small = ''small''"
| "Size_value regular = ''regular''"
| "Size_value large = ''large''"
| "Size_value not_chosen = ''not chosen''"
| "Size_value virtual_size = ''virtual''"
| "Size_value other = ''other''"

fun Size_name :: "Size \<Rightarrow> string" where
  "Size_name micro = ''micro''"
| "Size_name small = ''small''"
| "Size_name regular = ''regular''"
| "Size_name large = ''large''"
| "Size_name not_chosen = ''not_chosen''"
| "Size_name virtual_size = ''virtual''"
| "Size_name other = ''other''"

definition Size_members :: "Size list" where
  "Size_members = [micro, small, regular, large, not_chosen, virtual_size, other]"

definition Size_call :: "string \<Rightarrow> error + Size" where
  \<comment> \<open>\<open>Size(value)\<close>\<close>
  "Size_call v =
     (case List.find (\<lambda>m. Size_value m = v) Size_members of
        Some m \<Rightarrow> Inr m | None \<Rightarrow> Inl PyValueError)"

definition Size_from_filename :: "string \<Rightarrow> error + Size" where
  \<comment> \<open>\<open>cls[filename]\<close>: the member with this name, else \<open>KeyError\<close>\<close>
  "Size_from_filename filename =
     (case List.find (\<lambda>m. Size_name m = filename) Size_members of
        Some m \<Rightarrow> Inr m | None \<Rightarrow> Inl PyKeyError)"

definition Size_from_string :: "string \<Rightarrow> error + Size" where
  \<comment> \<open>the builtin \<open>ValueError\<close> of \<open>cls(name)\<close> is re-raised as \<open>errors.ValueError\<close>\<close>
  "Size_from_string name =
     (case Size_call (str_lower (str_strip name)) of
        Inr m \<Rightarrow> Inr m
      | Inl e \<Rightarrow> Inl (if is_ValueError e then ValueError else e))"

section \<open>Python values\<close>

text \<open>
  Ratings are floats in the source; here they are exact rationals. Every rating the
  setters accept (a multiple of one half between 1 and 5) and its product with 10 is a
  float without rounding. The floats \<open>inf\<close> and \<open>nan\<close> have no value here.
\<close>

text \<open>
  Modelled from the spec: the geographic point of \<open>pycaching.geo\<close>, which is not part
  of \<open>cache.py\<close>, as a latitude and a longitude. A \<open>datetime.date\<close> is a year, a
  month and a day. \<open>cache.py\<close> only stores and compares the types of these values.
\<close>

datatype point = Point rat rat

datatype date = Date int nat nat

record Waypoint =
  wp_identifier :: string
  wp_type :: "string option"
  wp_location :: "point option"
  wp_note :: string

datatype pyval =
    PNone
  | PBool bool
  | PInt int
  | PFloat rat
  | PStr string
  | PList "pyval list"
  | PDict "(pyval \<times> pyval) list"   \<comment> \<open>a \<open>dict\<close>, its items in insertion order\<close>
  | PDate date
  | PDatetime date nat               \<comment> \<open>\<open>datetime.datetime\<close>, a subclass of \<open>date\<close>\<close>
  | PPoint point
  | PType Type
  | PSize Size
  | PTag string                      \<comment> \<open>a \<open>bs4\<close> element, with its text\<close>
  | PWaypoint Waypoint
  | PTrackable string string         \<comment> \<open>a \<open>Trackable\<close> stub: its name and its URL\<close>
  | PSub string pyval                \<comment> \<open>an instance of a user-defined subclass of the value's class\<close>

datatype pytype =
    T_NoneType | T_bool | T_int | T_float | T_str | T_list | T_dict | T_date | T_datetime
  | T_Point | T_Type | T_Size | T_Tag | T_Waypoint | T_Trackable
  | T_user string pytype

fun type_of :: "pyval \<Rightarrow> pytype" where
  \<comment> \<open>\<open>_type(x)\<close>, the builtin \<open>type\<close>\<close>
  "type_of PNone = T_NoneType"
| "type_of (PBool _) = T_bool"
| "type_of (PInt _) = T_int"
| "type_of (PFloat _) = T_float"
| "type_of (PStr _) = T_str"
| "type_of (PList _) = T_list"
| "type_of (PDict _) = T_dict"
| "type_of (PDate _) = T_date"
| "type_of (PDatetime _ _) = T_datetime"
| "type_of (PPoint _) = T_Point"
| "type_of (PType _) = T_Type"
| "type_of (PSize _) = T_Size"
| "type_of (PTag _) = T_Tag"
| "type_of (PWaypoint _) = T_Waypoint"
| "type_of (PTrackable _ _) = T_Trackable"
| "type_of (PSub n v) = T_user n (type_of v)"

fun issubclass :: "pytype \<Rightarrow> pytype \<Rightarrow> bool" where
  "issubclass (T_user n t) u = (T_user n t = u \<or> issubclass t u)"
| "issubclass T_bool u = (u = T_bool \<or> u = T_int)"
| "issubclass T_datetime u = (u = T_datetime \<or> u = T_date)"
| "issubclass t u = (t = u)"

definition isinstance :: "pyval \<Rightarrow> pytype \<Rightarrow> bool" where
  "isinstance v t = issubclass (type_of v) t"

fun truthy :: "pyval \<Rightarrow> bool" where
  \<comment> \<open>\<open>bool(x)\<close>\<close>
  "truthy PNone = False"
| "truthy (PBool b) = b"
| "truthy (PInt n) = (n \<noteq> 0)"
| "truthy (PFloat r) = (r \<noteq> 0)"
| "truthy (PStr s) = (s \<noteq> [])"
| "truthy (PList l) = (l \<noteq> [])"
| "truthy (PDict d) = (d \<noteq> [])"
| "truthy (PSub n v) = truthy v"
| "truthy _ = True"

definition py_and :: "pyval \<Rightarrow> pyval \<Rightarrow> pyval" where
  \<comment> \<open>\<open>a and b\<close>\<close>
  "py_and a b = (if truthy a then b else a)"

definition py_or :: "pyval \<Rightarrow> pyval \<Rightarrow> pyval" where
  \<comment> \<open>\<open>a or b\<close>\<close>
  "py_or a b = (if truthy a then a else b)"

fun as_str :: "pyval \<Rightarrow> string option" where
  \<comment> \<open>the text of a \<open>str\<close> or of an instance of a subclass of \<open>str\<close>\<close>
  "as_str (PStr s) = Some s"
| "as_str (PSub n v) = as_str v"
| "as_str _ = None"

definition str_method :: "pyval \<Rightarrow> error + string" where
  \<comment> \<open>the receiver of \<open>x.strip()\<close>, \<open>x.replace(...)\<close>: only strings have these methods\<close>
  "str_method v = (case as_str v of Some s \<Rightarrow> Inr s | None \<Rightarrow> Inl PyAttributeError)"

definition fmod :: "rat \<Rightarrow> rat \<Rightarrow> rat" where
  \<comment> \<open>\<open>x % y\<close> on floats, for \<open>y > 0\<close>\<close>
  "fmod x y = x - of_int \<lfloor>x / y\<rfloor> * y"

section \<open>Collaborators\<close>

text \<open>
  \<open>cache.py\<close> calls builtins and functions of \<open>pycaching.util\<close>, \<open>pycaching.geo\<close>
  and \<open>pycaching.log\<close> that parse text. They are parameters of the model.
\<close>

record collab =
  py_float :: "string \<Rightarrow> rat option"            \<comment> \<open>\<open>float(s)\<close>; \<open>None\<close> is the builtin \<open>ValueError\<close>\<close>
  py_int :: "string \<Rightarrow> int option"              \<comment> \<open>\<open>int(s)\<close>\<close>
  py_repr :: "pyval \<Rightarrow> string"                  \<comment> \<open>\<open>str(x)\<close> of a value that is not a string\<close>
  parse_date :: "string \<Rightarrow> error + date"        \<comment> \<open>\<open>util.parse_date\<close>\<close>
  Point_from_string :: "string \<Rightarrow> error + point" \<comment> \<open>\<open>Point.from_string\<close>\<close>
  Point_call :: "string \<Rightarrow> error + point"      \<comment> \<open>\<open>Point(s)\<close>\<close>
  rot13 :: "string \<Rightarrow> string"                   \<comment> \<open>\<open>util.rot13\<close>\<close>
  findall_userToken :: "string \<Rightarrow> string list"  \<comment> \<open>\<open>re.findall\<close> of the \<open>userToken\<close> pattern\<close>
  LogType_from_filename :: "string \<Rightarrow> error + string"  \<comment> \<open>\<open>log.Type.from_filename\<close>\<close>

definition py_str :: "collab \<Rightarrow> pyval \<Rightarrow> string" where
  \<comment> \<open>\<open>str(x)\<close>\<close>
  "py_str K v = (case as_str v of Some s \<Rightarrow> s | None \<Rightarrow> py_repr K v)"

definition float_str :: "collab \<Rightarrow> string \<Rightarrow> error + rat" where
  "float_str K s = (case py_float K s of Some r \<Rightarrow> Inr r | None \<Rightarrow> Inl PyValueError)"

definition int_str :: "collab \<Rightarrow> string \<Rightarrow> error + int" where
  "int_str K s = (case py_int K s of Some n \<Rightarrow> Inr n | None \<Rightarrow> Inl PyValueError)"

text \<open>
  \<open>float(n)\<close> of an integer is the float nearest to it: a float has 53 significant
  bits, so the bits below them are rounded away, a tie to the even neighbour. An integer
  that rounds to \<open>2 ^ 1024\<close> or beyond has no float: \<open>OverflowError\<close>.
\<close>

fun bit_length :: "nat \<Rightarrow> nat" where
  \<comment> \<open>\<open>n.bit_length()\<close>\<close>
  "bit_length n = (if n = 0 then 0 else Suc (bit_length (n div 2)))"

declare bit_length.simps [simp del]

definition round_half_even :: "nat \<Rightarrow> nat \<Rightarrow> nat" where
  \<comment> \<open>\<open>m\<close> without its lowest \<open>k\<close> bits: the nearest multiple of \<open>2 ^ k\<close>\<close>
  "round_half_even m k =
     (let q = m div 2 ^ k; r = m mod 2 ^ k
      in (if 2 * r > 2 ^ k \<or> (2 * r = 2 ^ k \<and> odd q) then q + 1 else q) * 2 ^ k)"

definition float_int :: "int \<Rightarrow> int" where
  "float_int n =
     sgn n * int (round_half_even (nat \<bar>n\<bar>) (bit_length (nat \<bar>n\<bar>) - 53))"

definition float_limit :: int where
  "float_limit = 2 ^ 1024"

fun float_of :: "collab \<Rightarrow> pyval \<Rightarrow> error + rat" where
  \<comment> \<open>\<open>float(x)\<close>\<close>
  "float_of K (PFloat r) = Inr r"
| "float_of K (PInt n) =
     (if float_limit \<le> \<bar>float_int n\<bar> then Inl PyOverflowError
      else Inr (of_int (float_int n)))"
| "float_of K (PBool b) = Inr (if b then 1 else 0)"
| "float_of K (PStr s) = float_str K s"
| "float_of K (PSub n v) = float_of K v"
| "float_of K _ = Inl PyTypeError"

fun int_of :: "collab \<Rightarrow> pyval \<Rightarrow> error + int" where
  \<comment> \<open>\<open>int(x)\<close>; a float is truncated towards zero\<close>
  "int_of K (PInt n) = Inr n"
| "int_of K (PBool b) = Inr (if b then 1 else 0)"
| "int_of K (PFloat r) = Inr (if 0 \<le> r then \<lfloor>r\<rfloor> else \<lceil>r\<rceil>)"
| "int_of K (PStr s) = int_str K s"
| "int_of K (PSub n v) = int_of K v"
| "int_of K _ = Inl PyTypeError"

section \<open>The cache object and the world around it\<close>

datatype attr =
    A_geocaching | A_wp | A_guid | A_url | A_name | A_location | A_original_location
  | A_waypoints | A_type | A_state | A_found | A_size | A_difficulty | A_terrain
  | A_author | A_hidden | A_attributes | A_summary | A_description | A_hint
  | A_favorites | A_pm_only | A_logbook_token | A_trackable_page_url | A_trackables

datatype request =
    GetUrl pyval                  \<comment> \<open>\<open>_request(url)\<close>\<close>
  | GetDetails pyval              \<comment> \<open>\<open>_request("seek/cache_details.aspx", params={"wp": ...})\<close>\<close>
  | GetLogbook pyval int int      \<comment> \<open>\<open>_request("seek/geocache.logbook", ...)\<close>: token, idx, num\<close>

text \<open>
  The state is the instance dictionary of the cache (an attribute is unset when it has
  no entry), the requests the session has sent, and the warnings logged.
\<close>

record world =
  attrs :: "attr \<rightharpoonup> pyval"
  requests :: "request list"
  warnings :: "string list"

text \<open>
  A statement runs in a world and leaves a world, with the exception it raised if any:
  what it stored before raising stays stored.
\<close>

type_synonym stmt = "world \<Rightarrow> world \<times> error option"

definition store :: "attr \<Rightarrow> pyval \<Rightarrow> stmt" where
  "store a v = (\<lambda>w. (w\<lparr>attrs := (attrs w)(a \<mapsto> v)\<rparr>, None))"

definition raise :: "error \<Rightarrow> stmt" where
  "raise e = (\<lambda>w. (w, Some e))"

definition assign :: "('a \<Rightarrow> stmt) \<Rightarrow> error + 'a \<Rightarrow> stmt" where
  \<comment> \<open>\<open>self.x = expr\<close>: the expression is evaluated, then the setter runs\<close>
  "assign setter rhs = (case rhs of Inl e \<Rightarrow> raise e | Inr v \<Rightarrow> setter v)"

fun seq :: "stmt list \<Rightarrow> stmt" where
  "seq [] w = (w, None)"
| "seq (s # ss) w = (case s w of (w', None) \<Rightarrow> seq ss w' | (w', Some e) \<Rightarrow> (w', Some e))"

definition warning :: "string \<Rightarrow> stmt" where
  \<comment> \<open>\<open>logging.warning(msg)\<close>\<close>
  "warning msg = (\<lambda>w. (w\<lparr>warnings := warnings w @ [msg]\<rparr>, None))"

section \<open>The attribute registry\<close>

definition possible_attributes :: "(string \<times> string) list" where
  "possible_attributes =
     [
      (''abandonedbuilding'', ''Abandoned Structure''),
      (''available'', ''Available at All Times''),
      (''bicycles'', ''Bicycles''),
      (''boat'', ''Boat''),
      (''campfires'', ''Campfires''),
      (''camping'', ''Camping Available''),
      (''cliff'', ''Cliff / Falling Rocks''),
      (''climbing'', ''Difficult Climbing''),
      (''cow'', ''Watch for Livestock''),
      (''danger'', ''Dangerous Area''),
      (''dangerousanimals'', ''Dangerous Animals''),
      (''dogs'', ''Dogs''),
      (''fee'', ''Access or Parking Fee''),
      (''field_puzzle'', ''Field Puzzle''),
      (''firstaid'', ''Needs Maintenance''),
      (''flashlight'', ''Flashlight Required''),
      (''food'', ''Food Nearby''),
      (''frontyard'', ''Front Yard(Private Residence)''),
      (''fuel'', ''Fuel Nearby''),
      (''geotour'', ''GeoTour Cache''),
      (''hike_long'', ''Long Hike (+10km)''),
      (''hike_med'', ''Medium Hike (1km-10km)''),
      (''hike_short'', ''Short Hike (Less than 1km)''),
      (''hiking'', ''Significant Hike''),
      (''horses'', ''Horses''),
      (''hunting'', ''Hunting''),
      (''jeeps'', ''Off-Road Vehicles''),
      (''kids'', ''Recommended for Kids''),
      (''landf'', ''Lost And Found Tour''),
      (''mine'', ''Abandoned Mines''),
      (''motorcycles'', ''Motortcycles''),
      (''night'', ''Recommended at Night''),
      (''nightcache'', ''Night Cache''),
      (''onehour'', ''Takes Less Than an Hour''),
      (''parking'', ''Parking Available''),
      (''parkngrab'', ''Park and Grab''),
      (''partnership'', ''Partnership Cache''),
      (''phone'', ''Telephone Nearby''),
      (''picnic'', ''Picnic Tables Nearby''),
      (''poisonoak'', ''Poisonous Plants''),
      (''public'', ''Public Transportation''),
      (''quads'', ''Quads''),
      (''rappelling'', ''Climbing Gear''),
      (''restrooms'', ''Public Restrooms Nearby''),
      (''rv'', ''Truck Driver/RV''),
      (''s-tool'', ''Special Tool Required''),
      (''scenic'', ''Scenic View''),
      (''scuba'', ''Scuba Gear''),
      (''seasonal'', ''Seasonal Access''),
      (''skiis'', ''Cross Country Skis''),
      (''snowmobiles'', ''Snowmobiles''),
      (''snowshoes'', ''Snowshoes''),
      (''stealth'', ''Stealth Required''),
      (''stroller'', ''Stroller Accessible''),
      (''swimming'', ''May Require Swimming''),
      (''teamwork'', ''Teamwork Required''),
      (''thorn'', ''Thorns''),
      (''ticks'', ''Ticks''),
      (''touristok'', ''Tourist Friendly''),
      (''treeclimbing'', ''Tree Climbing''),
      (''uv'', ''UV Light Required''),
      (''wading'', ''May Require Wading''),
      (''water'', ''Drinking Water Nearby''),
      (''wheelchair'', ''Wheelchair Accessible''),
      (''winter'', ''Available During Winter''),
      (''wirelessbeacon'', ''Wireless Beacon'')]"

definition dict_setitem :: "('k \<times> 'v) list \<Rightarrow> 'k \<Rightarrow> 'v \<Rightarrow> ('k \<times> 'v) list" where
  \<comment> \<open>\<open>d[k] = v\<close>: a key already there keeps its place\<close>
  "dict_setitem d k v =
     (if k \<in> fst ` set d then map (\<lambda>(k', v'). if k' = k then (k', v) else (k', v')) d
      else d @ [(k, v)])"

section \<open>The setters\<close>

definition wp_setter :: "collab \<Rightarrow> pyval \<Rightarrow> stmt" where
  "wp_setter K wp =
     (let wp = str_strip (str_upper (py_str K wp))
      in if \<not> startswith wp ''GC'' then raise ValueError else store A_wp (PStr wp))"

definition name_setter :: "collab \<Rightarrow> pyval \<Rightarrow> stmt" where
  "name_setter K name = store A_name (PStr (str_strip (py_str K name)))"

definition location_setter :: "collab \<Rightarrow> pyval \<Rightarrow> stmt" where
  "location_setter K location =
     (if type_of location = T_str
      then assign (\<lambda>p. store A_location (PPoint p)) (Point_from_string K (py_str K location))
      else if type_of location \<noteq> T_Point then raise ValueError
      else store A_location location)"

definition original_location_setter :: "collab \<Rightarrow> pyval \<Rightarrow> stmt" where
  "original_location_setter K original_location =
     (if type_of original_location = T_str
      then assign (\<lambda>p. store A_original_location (PPoint p))
             (Point_from_string K (py_str K original_location))
      else if type_of original_location \<noteq> T_Point \<and> original_location \<noteq> PNone
      then raise ValueError
      else store A_original_location original_location)"

definition waypoints_setter :: "pyval \<Rightarrow> stmt" where
  "waypoints_setter waypoints = store A_waypoints waypoints"

definition type_setter :: "pyval \<Rightarrow> stmt" where
  "type_setter t =
     (if type_of t \<noteq> T_Type
      then assign (\<lambda>t. store A_type (PType t)) (bind (str_method t) Type_from_string)
      else store A_type t)"

definition state_setter :: "pyval \<Rightarrow> stmt" where
  "state_setter state = store A_state (PBool (truthy state))"

definition found_setter :: "pyval \<Rightarrow> stmt" where
  "found_setter found = store A_found (PBool (truthy found))"

definition size_setter :: "pyval \<Rightarrow> stmt" where
  "size_setter sz =
     (if type_of sz \<noteq> T_Size
      then assign (\<lambda>s. store A_size (PSize s)) (bind (str_method sz) Size_from_string)
      else store A_size sz)"

definition difficulty_setter :: "collab \<Rightarrow> pyval \<Rightarrow> stmt" where
  "difficulty_setter K difficulty =
     assign (\<lambda>difficulty.
         if difficulty < 1 \<or> difficulty > 5 \<or> fmod (difficulty * 10) 5 \<noteq> 0
         then raise ValueError
         else store A_difficulty (PFloat difficulty))
       (float_of K difficulty)"

definition terrain_setter :: "collab \<Rightarrow> pyval \<Rightarrow> stmt" where
  "terrain_setter K terrain =
     assign (\<lambda>terrain.
         if terrain < 1 \<or> terrain > 5 \<or> fmod (terrain * 10) 5 \<noteq> 0
         then raise ValueError
         else store A_terrain (PFloat terrain))
       (float_of K terrain)"

definition author_setter :: "collab \<Rightarrow> pyval \<Rightarrow> stmt" where
  "author_setter K author = store A_author (PStr (str_strip (py_str K author)))"

definition hidden_setter :: "collab \<Rightarrow> pyval \<Rightarrow> stmt" where
  "hidden_setter K hidden =
     (if type_of hidden = T_str
      then assign (\<lambda>d. store A_hidden (PDate d)) (parse_date K (py_str K hidden))
      else if type_of hidden \<noteq> T_date then raise ValueError
      else store A_hidden hidden)"

fun attributes_loop :: "(pyval \<times> pyval) list \<Rightarrow> stmt" where
  \<comment> \<open>\<open>for name, allowed in attributes.items()\<close>\<close>
  "attributes_loop [] w = (w, None)"
| "attributes_loop ((name, allowed) # items) w =
     (case str_method name of
        Inl e \<Rightarrow> (w, Some e)
      | Inr s \<Rightarrow>
          (let name = str_lower (str_strip s)
           in if name \<in> fst ` set possible_attributes
              then (case attrs w A_attributes of
                      Some (PDict d) \<Rightarrow>
                        attributes_loop items
                          (w\<lparr>attrs := (attrs w)(A_attributes \<mapsto>
                                PDict (dict_setitem d (PStr name) allowed))\<rparr>)
                    | _ \<Rightarrow> (w, Some PyAttributeError))
              else (case warning (''Unknown attribute '' @ name @ '', ignoring.'') w of
                      (w', _) \<Rightarrow> attributes_loop items w')))"

definition attributes_setter :: "pyval \<Rightarrow> stmt" where
  "attributes_setter attributes =
     (case attributes of
        PDict items \<Rightarrow> seq [store A_attributes (PDict []), attributes_loop items]
      | _ \<Rightarrow> raise ValueError)"

definition summary_setter :: "collab \<Rightarrow> pyval \<Rightarrow> stmt" where
  "summary_setter K summary = store A_summary (PStr (str_strip (py_str K summary)))"

definition description_setter :: "collab \<Rightarrow> pyval \<Rightarrow> stmt" where
  "description_setter K description =
     store A_description (PStr (str_strip (py_str K description)))"

definition hint_setter :: "collab \<Rightarrow> pyval \<Rightarrow> stmt" where
  "hint_setter K hint = store A_hint (PStr (str_strip (py_str K hint)))"

definition favorites_setter :: "collab \<Rightarrow> pyval \<Rightarrow> stmt" where
  "favorites_setter K favorites =
     assign (\<lambda>n. store A_favorites (PInt n)) (int_of K favorites)"

definition pm_only_setter :: "pyval \<Rightarrow> stmt" where
  "pm_only_setter pm_only = store A_pm_only (PBool (truthy pm_only))"

definition logbook_token_setter :: "pyval \<Rightarrow> stmt" where
  "logbook_token_setter logbook_token = store A_logbook_token logbook_token"

definition trackable_page_url_setter :: "pyval \<Rightarrow> stmt" where
  "trackable_page_url_setter trackable_page_url =
     store A_trackable_page_url trackable_page_url"

section \<open>Documents and the session\<close>

text \<open>
  A parsed document is known to \<open>cache.py\<close> only through the queries it asks. The
  record holds the answer to each: an option for a \<open>find\<close> (\<open>None\<close> when the element
  or the attribute read from it is missing, so that the access raises), a list for a
  \<open>find_all\<close>.
\<close>

record widget =
  w_img_srcs :: "string list"            \<comment> \<open>\<open>src\<close> of each \<open>img\<close>\<close>
  w_anchors :: nat                       \<comment> \<open>number of \<open>a\<close> elements\<close>
  w_view_all_href :: "string option option"
    \<comment> \<open>the "view all trackables" link, if there is one, and its \<open>href\<close>, if it has one\<close>

record user_content =
  uc_text :: string
  uc_html :: string

record cell =
  cell_text :: string
  cell_img_title :: "string option option"  \<comment> \<open>the \<open>title\<close> of the cell's \<open>img\<close>, if it has one\<close>

record link =
  href :: "string option"
  link_html :: string                    \<comment> \<open>\<open>str(link)\<close>\<close>

record page =
  pmo_banner :: bool                     \<comment> \<open>\<open>section.pmo-banner\<close> is there\<close>
  pm_gccode :: "string option"           \<comment> \<open>in \<open>ctl00_divContentMain\<close>: text of \<open>li.li__gccode\<close>\<close>
  pm_h1 :: "string option"
  pm_cache_by :: "string option"         \<comment> \<open>text of \<open>ctl00_ContentBody_uxCacheBy\<close>\<close>
  pm_hide_details :: "string option"     \<comment> \<open>text of \<open>ul.ul__hide-details\<close>\<close>
  pm_img_src :: "string option"
  title_string :: "string option"        \<comment> \<open>\<open>root.title.string\<close>\<close>
  h2 :: "string option"                  \<comment> \<open>in \<open>cacheDetails\<close>\<close>
  anchors :: "string list"               \<comment> \<open>texts of \<open>cache_details("a")\<close>\<close>
  cache_size_img_src :: "string option"
  star_label_alts :: "string list option"  \<comment> \<open>\<open>alt\<close> of each \<open>img\<close> in \<open>div.CacheStarLabels\<close>\<close>
  type_img_src :: "string option"
  warning_text :: "string option"        \<comment> \<open>text of \<open>p.Warning.NoBottomSpacing\<close>\<close>
  widgets :: "widget list"               \<comment> \<open>\<open>div.CacheDetailNavigationWidget\<close>\<close>
  minor_details_divs :: "string list option"
  uxLatLon :: "string option"
  old_warning :: bool                    \<comment> \<open>\<open>ul.OldWarning\<close> is there\<close>
  found_status :: "string option"        \<comment> \<open>text of \<open>div.FoundStatus\<close>\<close>
  user_supplied_content :: "user_content list"
  div_hint :: "string option"
  favorite_value :: "string option"
  scripts :: "string list"
  table_by_id :: "string \<Rightarrow> cell list list option"  \<comment> \<open>rows of cells of \<open>table#id\<close>\<close>
  tables :: "link list list"             \<comment> \<open>the links of each \<open>table\<close>\<close>

record log_data =
  LogTypeImage :: string
  LogText :: string
  Visited :: string
  UserName :: string

record response =
  status :: string
  msg :: "string option"
  data :: "log_data list"

text \<open>
  The server: a document for a request (\<open>None\<close> when the session raises one of its
  errors), and the pages of the logbook. A page past the last one is empty.
\<close>

record site =
  html :: "request \<Rightarrow> page option"
  logbook_pages :: "response list"

definition request_html :: "site \<Rightarrow> request \<Rightarrow> world \<Rightarrow> world \<times> (error + page)" where
  "request_html S req w =
     (w\<lparr>requests := requests w @ [req]\<rparr>,
      case html S req of None \<Rightarrow> Inl TransportError | Some doc \<Rightarrow> Inr doc)"

definition request_json :: "site \<Rightarrow> request \<Rightarrow> world \<Rightarrow> world \<times> response" where
  "request_json S req w =
     (w\<lparr>requests := requests w @ [req]\<rparr>,
      case req of
        GetLogbook tkn idx num \<Rightarrow>
          (if 1 \<le> idx \<and> nat (idx - 1) < length (logbook_pages S)
           then logbook_pages S ! nat (idx - 1)
           else \<lparr>status = ''success'', msg = None, data = []\<rparr>)
      | _ \<Rightarrow> \<lparr>status = ''failed'', msg = None, data = []\<rparr>)"

section \<open>Waypoints\<close>

fun every_other :: "'a list \<Rightarrow> 'a list" where
  \<comment> \<open>\<open>xs[0::2]\<close>\<close>
  "every_other [] = []"
| "every_other [x] = [x]"
| "every_other (x # y # xs) = x # every_other xs"

definition except_ValueError :: "error + 'a \<Rightarrow> error + 'a option" where
  \<comment> \<open>\<open>try: loc = ... except ValueError: loc = None\<close>\<close>
  "except_ValueError r =
     (case r of Inr v \<Rightarrow> Inr (Some v)
      | Inl e \<Rightarrow> if is_ValueError e then Inr None else Inl e)"

fun from_html_rows ::
  "collab \<Rightarrow> (cell list \<times> cell list) list \<Rightarrow> (pyval \<times> pyval) list
     \<Rightarrow> error + (pyval \<times> pyval) list" where
  "from_html_rows K [] waypoints_dict = Inr waypoints_dict"
| "from_html_rows K ((r1, r2) # rows) waypoints_dict =
     (let columns = r1 @ r2 in
      bind (index columns 4) (\<lambda>c4.
      bind (index columns 2) (\<lambda>c2.
      bind (attr_of (cell_img_title c2)) (\<lambda>type.
      bind (index columns 6) (\<lambda>c6.
      bind (except_ValueError (Point_call K (str_strip (cell_text c6)))) (\<lambda>loc.
      bind (index columns 10) (\<lambda>c10.
        from_html_rows K rows
          (dict_setitem waypoints_dict (PStr (str_strip (cell_text c4)))
             (PWaypoint \<lparr>wp_identifier = str_strip (cell_text c4), wp_type = type,
                          wp_location = loc, wp_note = str_strip (cell_text c10)\<rparr>)))))))))"

definition from_html :: "collab \<Rightarrow> page \<Rightarrow> string \<Rightarrow> error + pyval" where
  \<comment> \<open>\<open>Waypoint.from_html(soup, table_id)\<close>\<close>
  "from_html K soup table_id =
     (case table_by_id soup table_id of
        None \<Rightarrow> Inr (PDict [])
      | Some waypoints_table \<Rightarrow>
          bind (from_html_rows K
                  (zip (every_other (drop 1 waypoints_table))
                       (every_other (drop 2 waypoints_table))) [])
            (\<lambda>d. Inr (PDict d)))"

section \<open>Loading the cache details\<close>

definition filename_of_src :: "string \<Rightarrow> error + string" where
  \<comment> \<open>\<open>src.split("/")[-1].rsplit(".", 1)[0]\<close>: the file name without its extension\<close>
  "filename_of_src src =
     bind (last_item (str_split ''/'' src)) (\<lambda>f. index (str_rsplit1 ''.'' f) 0)"

definition first_word_float :: "collab \<Rightarrow> string \<Rightarrow> error + rat" where
  \<comment> \<open>\<open>float(alt.split()[0])\<close>\<close>
  "first_word_float K alt = bind (index (split_words alt) 0) (float_str K)"

fun all_ok :: "(error + 'a) list \<Rightarrow> error + 'a list" where
  \<comment> \<open>a list comprehension: the first element that raises ends it\<close>
  "all_ok [] = Inr []"
| "all_ok (r # rs) = bind r (\<lambda>v. bind (all_ok rs) (\<lambda>vs. Inr (v # vs)))"

definition unpack2 :: "'a list \<Rightarrow> error + 'a \<times> 'a" where
  \<comment> \<open>\<open>a, b = xs\<close>\<close>
  "unpack2 xs = (case xs of [a, b] \<Rightarrow> Inr (a, b) | _ \<Rightarrow> Inl PyValueError)"

definition pm_details :: "collab \<Rightarrow> page \<Rightarrow> stmt list" where
  \<comment> \<open>the details a basic member sees of a PM-only cache\<close>
  "pm_details K doc =
     (let details = bind (attr_of (pm_hide_details doc)) (\<lambda>t. Inr (str_split [CHR 0x0A] t)) in
      [assign (wp_setter K)
         (bind (attr_of (pm_gccode doc)) (\<lambda>t. Inr (PStr (str_strip t)))),
       assign (name_setter K)
         (bind (attr_of (pm_h1 doc)) (\<lambda>t. Inr (PStr (str_strip t)))),
       assign (author_setter K)
         (bind (attr_of (pm_cache_by doc))
            (\<lambda>author. Inr (PStr (drop (length ''A cache by '') author)))),
       assign (difficulty_setter K)
         (bind details (\<lambda>d. bind (index d 2) (\<lambda>s. bind (float_str K s) (\<lambda>r. Inr (PFloat r))))),
       assign (terrain_setter K)
         (bind details (\<lambda>d. bind (index d 5) (\<lambda>s. bind (float_str K s) (\<lambda>r. Inr (PFloat r))))),
       assign size_setter
         (bind details (\<lambda>d. bind (index d 8) (\<lambda>s. bind (Size_from_string s) (\<lambda>z. Inr (PSize z))))),
       assign (favorites_setter K)
         (bind details (\<lambda>d. bind (index d 11) (\<lambda>s. bind (int_str K s) (\<lambda>n. Inr (PInt n)))))])"

definition except_all :: "error \<Rightarrow> stmt \<Rightarrow> stmt" where
  \<comment> \<open>\<open>try: s except: raise e\<close>\<close>
  "except_all e s = (\<lambda>w. case s w of (w', Some _) \<Rightarrow> (w', Some e) | r \<Rightarrow> r)"

definition basic_details :: "collab \<Rightarrow> page \<Rightarrow> stmt list" where
  \<comment> \<open>the same details, from the full layout\<close>
  "basic_details K doc =
     (let D_and_T_img = attr_of (star_label_alts doc) in
      [except_all LoadError
         (assign (wp_setter K)
            (bind (attr_of (title_string doc))
               (\<lambda>t. bind (index (str_split '' '' t) 0) (\<lambda>s. Inr (PStr s))))),
       assign (name_setter K) (bind (attr_of (h2 doc)) (\<lambda>t. Inr (PStr t))),
       assign (author_setter K) (bind (index (anchors doc) 1) (\<lambda>t. Inr (PStr t))),
       assign (\<lambda>_. seq []) D_and_T_img,
       assign size_setter
         (bind (attr_of (cache_size_img_src doc)) (\<lambda>src.
          bind (filename_of_src src) (\<lambda>f.
          bind (Size_from_filename f) (\<lambda>z. Inr (PSize z))))),
       assign (\<lambda>(difficulty, terrain).
                 seq [difficulty_setter K (PFloat difficulty), terrain_setter K (PFloat terrain)])
         (bind D_and_T_img (\<lambda>alts.
          bind (all_ok (map (first_word_float K) alts)) unpack2))])"

definition found_expr :: "string option \<Rightarrow> pyval" where
  \<comment> \<open>\<open>found and ("Found It!" or "Attended" in found.text) or False\<close>\<close>
  "found_expr found =
     (case found of
        None \<Rightarrow> py_or PNone (PBool False)
      | Some text \<Rightarrow>
          py_or (py_and (PTag text)
                   (py_or (PStr ''Found It!'') (PBool (str_contains ''Attended'' text))))
                (PBool False))"

definition pm_only_expr :: "string option \<Rightarrow> pyval" where
  \<comment> \<open>\<open>pm_only_warning and ("Premium Member Only" in pm_only_warning.text) or False\<close>\<close>
  "pm_only_expr pm_only_warning =
     (case pm_only_warning of
        None \<Rightarrow> py_or PNone (PBool False)
      | Some text \<Rightarrow>
          py_or (py_and (PTag text) (PBool (str_contains ''Premium Member Only'' text)))
                (PBool False))"

fun attributes_comprehension :: "string list list \<Rightarrow> error + (pyval \<times> pyval) list" where
  \<comment> \<open>\<open>{name: appendix.startswith("yes") for name, appendix in attributes_raw
        if not appendix.startswith("blank")}\<close>, built from the left\<close>
  "attributes_comprehension [] = Inr []"
| "attributes_comprehension (token # attributes_raw) =
     bind (unpack2 token) (\<lambda>(attribute_name, appendix).
     bind (attributes_comprehension attributes_raw) (\<lambda>rest.
       Inr (if \<not> startswith appendix ''blank''
            then (PStr attribute_name, PBool (startswith appendix ''yes'')) # rest
            else rest)))"

definition dict_of_items :: "('k \<times> 'v) list \<Rightarrow> ('k \<times> 'v) list" where
  \<comment> \<open>the dictionary that receives the items in this order\<close>
  "dict_of_items items = foldl (\<lambda>d (k, v). dict_setitem d k v) [] items"

definition icon_tokens :: "string list \<Rightarrow> error + string list list" where
  \<comment> \<open>\<open>[src.split("/")[-1].rsplit("-", 1) for src in srcs]\<close>\<close>
  "icon_tokens srcs =
     all_ok (map (\<lambda>src. bind (last_item (str_split ''/'' src))
                          (\<lambda>f. Inr (str_rsplit1 ''-'' f))) srcs)"

definition attributes_of_srcs :: "string list \<Rightarrow> error + pyval" where
  "attributes_of_srcs srcs =
     bind (icon_tokens srcs) (\<lambda>attributes_raw.
     bind (attributes_comprehension attributes_raw) (\<lambda>items.
       Inr (PDict (dict_of_items items))))"

definition oldLatLng :: string where
  "oldLatLng = ''oldLatLng'' @ [CHR 0x22] @ '':''"

definition remaining_details :: "collab \<Rightarrow> page \<Rightarrow> stmt list" where
  \<comment> \<open>the details a basic member does not see of a PM-only cache\<close>
  "remaining_details K doc =
     (let widgets2 = (case widgets doc of
                        attributes_widget # inventory_widget # _ \<Rightarrow>
                          Inr (attributes_widget, inventory_widget)
                      | _ \<Rightarrow> Inl PyValueError);
          js_content = str_join [CHR 0x0A] (scripts doc) in
      [pm_only_setter (pm_only_expr (warning_text doc)),
       assign (\<lambda>_. seq []) widgets2,
       assign (hidden_setter K)
         (bind (attr_of (minor_details_divs doc)) (\<lambda>divs.
          bind (index divs 1) (\<lambda>hidden.
          bind (last_item (str_split '':'' hidden)) (\<lambda>s.
          bind (parse_date K s) (\<lambda>d. Inr (PDate d)))))),
       assign (location_setter K)
         (bind (attr_of (uxLatLon doc)) (\<lambda>t.
          bind (Point_from_string K t) (\<lambda>p. Inr (PPoint p)))),
       state_setter (PBool (\<not> old_warning doc)),
       found_setter (found_expr (found_status doc)),
       assign attributes_setter
         (bind widgets2 (\<lambda>(attributes_widget, _).
          attributes_of_srcs (w_img_srcs attributes_widget))),
       assign (summary_setter K)
         (bind (index (user_supplied_content doc) 0) (\<lambda>u. Inr (PStr (uc_text u)))),
       assign (description_setter K)
         (bind (index (user_supplied_content doc) 1) (\<lambda>u. Inr (PStr (uc_html u)))),
       assign (hint_setter K)
         (bind (attr_of (div_hint doc)) (\<lambda>t. Inr (PStr (rot13 K (str_strip t))))),
       assign (favorites_setter K)
         (case favorite_value doc of
            None \<Rightarrow> Inr (PInt 0)
          | Some t \<Rightarrow> bind (int_str K t) (\<lambda>n. Inr (PInt n))),
       assign logbook_token_setter
         (bind (index (findall_userToken K js_content) 0) (\<lambda>t. Inr (PStr t))),
       (if str_contains oldLatLng js_content
        then assign (original_location_setter K)
               (bind (index (str_split oldLatLng js_content) 1) (\<lambda>a.
                bind (index (str_split '']'' a) 0) (\<lambda>b.
                bind (index (str_split ''['' b) 1) (\<lambda>old_lat_long.
                bind (Point_call K old_lat_long) (\<lambda>p. Inr (PPoint p))))))
        else original_location_setter K PNone),
       assign trackable_page_url_setter
         (bind widgets2 (\<lambda>(_, inventory_widget).
            if w_anchors inventory_widget \<ge> 3
            then bind (attr_of (w_view_all_href inventory_widget)) (\<lambda>href.
                   case href of
                     None \<Rightarrow> Inl PyTypeError
                   | Some h \<Rightarrow> Inr (PStr (drop 3 h)))
            else Inr PNone)),
       assign waypoints_setter (from_html K doc ''ctl00_ContentBody_Waypoints'')])"

definition load_parse :: "collab \<Rightarrow> page \<Rightarrow> stmt" where
  "load_parse K doc =
     seq [pm_only_setter (PBool (pmo_banner doc)),
          (if pmo_banner doc then seq (pm_details K doc) else seq (basic_details K doc)),
          assign type_setter
            (bind (attr_of (if pmo_banner doc then pm_img_src doc else type_img_src doc))
               (\<lambda>src. bind (filename_of_src src)
               (\<lambda>f. bind (Type_from_filename f) (\<lambda>t. Inr (PType t))))),
          (if pmo_banner doc then raise PMOnlyException
           else seq (remaining_details K doc))]"

definition load :: "collab \<Rightarrow> site \<Rightarrow> stmt" where
  "load K S w =
     (case (case attrs w A_url of
              Some url \<Rightarrow> request_html S (GetUrl url) w
            | None \<Rightarrow>
                (case attrs w A_wp of
                   Some wp \<Rightarrow> request_html S (GetDetails wp) w
                 | None \<Rightarrow> (w, Inl LoadError))) of
        (w', Inl e) \<Rightarrow> (w', Some LoadError)
      | (w', Inr doc) \<Rightarrow> load_parse K doc w')"

section \<open>Lazy loading\<close>

text \<open>
  Modelled from the spec: the decorator \<open>lazy_loaded\<close> of \<open>pycaching.util\<close>, which
  \<open>cache.py\<close> imports. A getter under it returns the field when it is set; when the field
  has never been set it calls \<open>load\<close> once and invokes the getter again. What \<open>load\<close>
  raises reaches the caller, and a field that \<open>load\<close> left unset raises \<open>AttributeError\<close>.
\<close>

definition lazy_loaded :: "collab \<Rightarrow> site \<Rightarrow> attr \<Rightarrow> world \<Rightarrow> world \<times> (error + pyval)" where
  "lazy_loaded K S a w =
     (case attrs w a of
        Some v \<Rightarrow> (w, Inr v)
      | None \<Rightarrow>
          (case load K S w of
             (w', Some e) \<Rightarrow> (w', Inl e)
           | (w', None) \<Rightarrow>
               (case attrs w' a of
                  Some v \<Rightarrow> (w', Inr v)
                | None \<Rightarrow> (w', Inl PyAttributeError))))"

definition lazy_fields :: "attr list" where
  \<comment> \<open>the backing fields of the properties decorated with \<open>lazy_loaded\<close>\<close>
  "lazy_fields =
     [A_name, A_location, A_original_location, A_waypoints, A_type, A_state, A_found,
      A_size, A_difficulty, A_terrain, A_author, A_hidden, A_attributes, A_summary,
      A_description, A_hint, A_favorites, A_logbook_token, A_trackable_page_url]"

section \<open>The logbook\<close>

text \<open>
  Modelled from the spec: a \<open>Log\<close> of \<open>pycaching.log\<close>, with its classification, text,
  visit date and author. Its \<open>visited\<close> setter parses the date it is given.
\<close>

record Log =
  log_type :: string
  log_text :: string
  log_visited :: date
  log_author :: string

datatype limit = Unbounded | Limit int   \<comment> \<open>\<open>float("inf")\<close>, or a number\<close>

fun decrement :: "limit \<Rightarrow> limit" where
  \<comment> \<open>\<open>limit -= 1\<close>\<close>
  "decrement Unbounded = Unbounded"
| "decrement (Limit n) = Limit (n - 1)"

fun negative :: "limit \<Rightarrow> bool" where
  \<comment> \<open>\<open>limit < 0\<close>\<close>
  "negative Unbounded = False"
| "negative (Limit n) = (n < 0)"

fun min_limit :: "limit \<Rightarrow> int \<Rightarrow> int" where
  \<comment> \<open>\<open>min(limit, k)\<close>\<close>
  "min_limit Unbounded k = k"
| "min_limit (Limit n) k = min n k"

definition logbook_get_page ::
  "collab \<Rightarrow> site \<Rightarrow> nat \<Rightarrow> int \<Rightarrow> world \<Rightarrow> world \<times> (error + log_data list)" where
  \<comment> \<open>\<open>_logbook_get_page(page, per_page)\<close>\<close>
  "logbook_get_page K S page per_page w =
     (case lazy_loaded K S A_logbook_token w of
        (w', Inl e) \<Rightarrow> (w', Inl e)
      | (w', Inr tkn) \<Rightarrow>
          (case request_json S (GetLogbook tkn (int page + 1) per_page) w' of
             (w'', res) \<Rightarrow>
               if status res \<noteq> ''success'' then (w'', Inl LoadError)
               else (w'', Inr (data res))))"

definition make_log :: "collab \<Rightarrow> log_data \<Rightarrow> error + Log" where
  \<comment> \<open>\<open>l = Log()\<close> and the four assignments that fill it\<close>
  "make_log K log_data =
     bind (index (str_rsplit1 ''.'' (LogTypeImage log_data)) 0) (\<lambda>img_filename.
     bind (LogType_from_filename K img_filename) (\<lambda>t.
     bind (parse_date K (Visited log_data)) (\<lambda>d.
       Inr \<lparr>log_type = t, log_text = LogText log_data, log_visited = d,
            log_author = UserName log_data\<rparr>)))"

text \<open>
  A generator body that runs until it raises or returns: the values it yields, the
  exception that ended it (\<open>None\<close> when it returned) and the world it leaves.
\<close>

fun logs_of_page :: "collab \<Rightarrow> log_data list \<Rightarrow> limit \<Rightarrow> Log list \<times> limit \<times> error option" where
  \<comment> \<open>\<open>for log_data in logbook_page\<close>\<close>
  "logs_of_page K [] limit = ([], limit, None)"
| "logs_of_page K (log_data # rest) limit =
     (let limit = decrement limit in
      if negative limit then ([], limit, Some StopIteration)
      else (case make_log K log_data of
              Inl e \<Rightarrow> ([], limit, Some e)
            | Inr l \<Rightarrow>
                (case logs_of_page K rest limit of
                   (ls, limit', r) \<Rightarrow> (l # ls, limit', r))))"

function logbook_loop ::
  "collab \<Rightarrow> site \<Rightarrow> nat \<Rightarrow> int \<Rightarrow> limit \<Rightarrow> world \<Rightarrow> Log list \<times> error option \<times> world" where
  \<comment> \<open>\<open>while True\<close>\<close>
  "logbook_loop K S page per_page limit w =
     (case logbook_get_page K S page per_page w of
        (w', Inl e) \<Rightarrow> ([], Some e, w')
      | (w', Inr logbook_page) \<Rightarrow>
          if logbook_page = [] then ([], Some StopIteration, w')
          else (case logs_of_page K logbook_page limit of
                  (ls, limit', Some e) \<Rightarrow> (ls, Some e, w')
                | (ls, limit', None) \<Rightarrow>
                    (case logbook_loop K S (page + 1) per_page limit' w' of
                       (ls', r) \<Rightarrow> (ls @ ls', r))))"
  by pat_completeness auto
termination
proof (relation "measure (\<lambda>(K, S, page, per_page, limit, w). length (logbook_pages S) - page)",
    goal_cases)
  case 1
  show ?case by simp
next
  case (2 K S page per_page limit w)
  have in_range: "page < length (logbook_pages S)"
    if "logbook_get_page K S page per_page w = (w', Inr logbook_page)"
      and "logbook_page \<noteq> []" for w' logbook_page
  proof (rule ccontr)
    assume "\<not> page < length (logbook_pages S)"
    then have "request_json S (GetLogbook tkn (int page + 1) per_page) u = (u', res)
        \<Longrightarrow> data res = []" for tkn u u' res
      by (auto simp: request_json_def)
    with that show False
      by (fastforce simp: logbook_get_page_def split: prod.splits sum.splits if_splits)
  qed
  from 2 have "page < length (logbook_pages S)"
    by (metis in_range)
  then show ?case by simp
qed

declare logbook_loop.simps [simp del]

definition format_self :: "world \<Rightarrow> error option" where
  \<comment> \<open>\<open>"{}".format(self)\<close>: \<open>__str__\<close> returns \<open>self._wp\<close>, which must be there and a string\<close>
  "format_self w =
     (case attrs w A_wp of
        None \<Rightarrow> Some PyAttributeError
      | Some wp \<Rightarrow> if as_str wp = None then Some PyTypeError else None)"

definition load_logbook_body ::
  "collab \<Rightarrow> site \<Rightarrow> limit \<Rightarrow> world \<Rightarrow> Log list \<times> error option \<times> world" where
  \<comment> \<open>the first statement is \<open>logging.info("Loading logbook for {}...".format(self))\<close>\<close>
  "load_logbook_body K S limit w =
     (case format_self w of
        Some e \<Rightarrow> ([], Some e, w)
      | None \<Rightarrow> logbook_loop K S 0 (min_limit limit 100) limit w)"

section \<open>Generators\<close>

datatype outcome = Exhausted | Raises error

text \<open>
  What the consumer of a generator sees when the body ends. A body that returns exhausts
  the generator. An exception leaves through \<open>next\<close>, and \<open>StopIteration\<close> raised inside
  the body leaves as \<open>RuntimeError\<close> (PEP 479, the behaviour of Python 3.7 and later).
  Before Python 3.7 it ended the generator; \<open>generator_exit_legacy\<close> is that behaviour.
\<close>

fun generator_exit :: "error option \<Rightarrow> outcome" where
  "generator_exit None = Exhausted"
| "generator_exit (Some StopIteration) = Raises RuntimeError"
| "generator_exit (Some e) = Raises e"

fun generator_exit_legacy :: "error option \<Rightarrow> outcome" where
  "generator_exit_legacy None = Exhausted"
| "generator_exit_legacy (Some StopIteration) = Exhausted"
| "generator_exit_legacy (Some e) = Raises e"

definition load_logbook ::
  "collab \<Rightarrow> site \<Rightarrow> limit \<Rightarrow> world \<Rightarrow> Log list \<times> outcome \<times> world" where
  \<comment> \<open>\<open>list(cache.load_logbook(limit))\<close>: the generator run to its end\<close>
  "load_logbook K S limit w =
     (case load_logbook_body K S limit w of (ls, r, w') \<Rightarrow> (ls, generator_exit r, w'))"

section \<open>The trackables\<close>

text \<open>
  Modelled from the spec: a \<open>Trackable\<close> of \<open>pycaching.trackable\<close> as the stub that
  \<open>load_trackables\<close> yields, an entity without a code that carries a name and a URL
  (\<open>PTrackable\<close>).
\<close>

definition split_angle :: "string \<Rightarrow> string list" where
  \<comment> \<open>\<open>re.split\<close> at the two angle brackets: a cut at every one of them\<close>
  "split_angle s =
     foldr (\<lambda>c ps. if c = CHR ''<'' \<or> c = CHR ''>'' then [] # ps
                    else (case ps of [] \<Rightarrow> [[c]] | p # r \<Rightarrow> (c # p) # r)) s [[]]"

definition track_links :: "link list \<Rightarrow> error + link list" where
  \<comment> \<open>\<open>[link for link in links if "track" in link.get("href")]\<close>\<close>
  "track_links links =
     bind (all_ok (map (\<lambda>link. case href link of
                                  None \<Rightarrow> Inl PyTypeError
                                | Some h \<Rightarrow> Inr (link, str_contains ''track'' h)) links))
       (\<lambda>marked. Inr (map fst (filter snd marked)))"

fun trackables_loop :: "(string \<times> string) list \<Rightarrow> limit \<Rightarrow> world
    \<Rightarrow> pyval list \<times> error option \<times> world" where
  \<comment> \<open>\<open>for name, url in zip(names, urls)\<close>\<close>
  "trackables_loop [] limit w = ([], None, w)"
| "trackables_loop ((name, url) # rest) limit w =
     (let limit = decrement limit in
      if negative limit then ([], Some StopIteration, w)
      else (case trackables_loop rest limit
                   (w\<lparr>attrs := (attrs w)(A_trackables \<mapsto>
                        (case attrs w A_trackables of
                           Some (PList ts) \<Rightarrow> PList (ts @ [PTrackable name url])
                         | _ \<Rightarrow> PList [PTrackable name url]))\<rparr>) of
              (ts, r) \<Rightarrow> (PTrackable name url # ts, r)))"

definition load_trackables_body ::
  "collab \<Rightarrow> site \<Rightarrow> limit \<Rightarrow> world \<Rightarrow> pyval list \<times> error option \<times> world" where
  \<comment> \<open>the first statement is \<open>logging.info("Loading trackables for {}...".format(self))\<close>\<close>
  "load_trackables_body K S limit w =
     (case format_self w of
        Some e \<Rightarrow> ([], Some e, w)
      | None \<Rightarrow>
     (case store A_trackables (PList []) w of
        (w0, _) \<Rightarrow>
     (case lazy_loaded K S A_trackable_page_url w0 of
        (w1, Inl e) \<Rightarrow> ([], Some e, w1)
      | (w1, Inr url) \<Rightarrow>
          if \<not> truthy url then ([], Some StopIteration, w1)
          else (case request_html S (GetUrl url) w1 of
                  (w2, Inl e) \<Rightarrow> ([], Some e, w2)
                | (w2, Inr res) \<Rightarrow>
                    (case bind (index (tables res) 1) (\<lambda>links.
                          bind (track_links links) (\<lambda>tracked.
                          bind (all_ok (map (\<lambda>l. attr_of (href l)) tracked)) (\<lambda>urls.
                          bind (all_ok (map (\<lambda>l. index (split_angle (link_html l)) 2) tracked))
                            (\<lambda>names. Inr (zip names urls))))) of
                       Inl e \<Rightarrow> ([], Some e, w2)
                     | Inr pairs \<Rightarrow> trackables_loop pairs limit w2)))))"

definition load_trackables ::
  "collab \<Rightarrow> site \<Rightarrow> limit \<Rightarrow> world \<Rightarrow> pyval list \<times> outcome \<times> world" where
  \<comment> \<open>\<open>list(cache.load_trackables(limit))\<close>: the generator run to its end\<close>
  "load_trackables K S limit w =
     (case load_trackables_body K S limit w of (ts, r, w') \<Rightarrow> (ts, generator_exit r, w'))"

section \<open>Generators before Python 3.7\<close>

definition load_logbook_legacy ::
  "collab \<Rightarrow> site \<Rightarrow> limit \<Rightarrow> world \<Rightarrow> Log list \<times> outcome \<times> world" where
  "load_logbook_legacy K S limit w =
     (case load_logbook_body K S limit w of
        (ls, r, w') \<Rightarrow> (ls, generator_exit_legacy r, w'))"

definition load_trackables_legacy ::
  "collab \<Rightarrow> site \<Rightarrow> limit \<Rightarrow> world \<Rightarrow> pyval list \<times> outcome \<times> world" where
  "load_trackables_legacy K S limit w =
     (case load_trackables_body K S limit w of
        (ts, r, w') \<Rightarrow> (ts, generator_exit_legacy r, w'))"

section \<open>The logs a consumer should get\<close>

text \<open>
  The logs that a limit lets through, and the log entries the server has from a page
  on: those of the pages before the first empty one.
\<close>

fun limit_take :: "limit \<Rightarrow> 'a list \<Rightarrow> 'a list" where
  "limit_take Unbounded xs = xs"
| "limit_take (Limit n) xs = take (nat n) xs"

definition available :: "site \<Rightarrow> nat \<Rightarrow> log_data list" where
  "available S page =
     concat (takeWhile (\<lambda>p. p \<noteq> []) (map data (drop page (logbook_pages S))))"

section \<open>Statements that keep and set fields\<close>

text \<open>
  Two facts about a statement carry the proofs about \<open>load\<close>: it never unsets a field
  and sends no request (\<open>keeps\<close>), and when it ends without raising it has set a given
  field (\<open>sets\<close>).
\<close>

definition keeps :: "stmt \<Rightarrow> bool" where
  "keeps s = (\<forall>w w' r. s w = (w', r) \<longrightarrow>
                dom (attrs w) \<subseteq> dom (attrs w') \<and> requests w' = requests w)"

definition sets :: "attr \<Rightarrow> stmt \<Rightarrow> bool" where
  "sets a s = (\<forall>w w'. s w = (w', None) \<longrightarrow> attrs w' a \<noteq> None)"

section \<open>The reduced layout of a PM-only page\<close>

text \<open>
  What the reduced layout of a PM-only page holds, when every piece of it is there and
  passes the check of its setter: the code, the name, the author, the two ratings, the
  size, the favorite count and the type.
\<close>

definition reduced_layout ::
  "collab \<Rightarrow> page \<Rightarrow> string \<Rightarrow> string \<Rightarrow> string \<Rightarrow> rat \<Rightarrow> rat \<Rightarrow> Size \<Rightarrow> int \<Rightarrow> Type \<Rightarrow> bool" where
  "reduced_layout K doc code name author d t z n ty =
     (pmo_banner doc
      \<and> map_option (\<lambda>raw. str_strip (str_upper (str_strip raw))) (pm_gccode doc) = Some code
      \<and> startswith code ''GC''
      \<and> map_option (\<lambda>raw. str_strip (str_strip raw)) (pm_h1 doc) = Some name
      \<and> map_option (\<lambda>raw. str_strip (drop (length ''A cache by '') raw)) (pm_cache_by doc)
          = Some author
      \<and> (case pm_hide_details doc of
            None \<Rightarrow> False
          | Some text \<Rightarrow>
              (let details = str_split [CHR 0x0A] text
               in 11 < length details
                  \<and> py_float K (details ! 2) = Some d
                  \<and> 1 \<le> d \<and> d \<le> 5 \<and> fmod (d * 10) 5 = 0
                  \<and> py_float K (details ! 5) = Some t
                  \<and> 1 \<le> t \<and> t \<le> 5 \<and> fmod (t * 10) 5 = 0
                  \<and> Size_from_string (details ! 8) = Inr z
                  \<and> py_int K (details ! 11) = Some n))
      \<and> (case pm_img_src doc of
            None \<Rightarrow> False
          | Some src \<Rightarrow> bind (filename_of_src src) Type_from_filename = Inr ty))"

definition pm_fields ::
  "string \<Rightarrow> string \<Rightarrow> string \<Rightarrow> rat \<Rightarrow> rat \<Rightarrow> Size \<Rightarrow> int \<Rightarrow> Type \<Rightarrow> (attr \<rightharpoonup> pyval) \<Rightarrow> (attr \<rightharpoonup> pyval)" where
  "pm_fields code name author d t z n ty m =
     m(A_pm_only \<mapsto> PBool True, A_wp \<mapsto> PStr code, A_name \<mapsto> PStr name,
       A_author \<mapsto> PStr author, A_difficulty \<mapsto> PFloat d, A_terrain \<mapsto> PFloat t,
       A_size \<mapsto> PSize z, A_favorites \<mapsto> PInt n, A_type \<mapsto> PType ty)"

section \<open>The attribute map of a list of icon tokens\<close>

text \<open>
  The attribute map that a list of icon tokens stands for, in the words of the
  specification: a token is a name and a suffix; a token whose suffix starts with
  \<open>blank\<close> is left out (\<open>retained\<close>); a name that is not in the registry is left out,
  with a warning; every other token gives its name, stripped and in lower case, the
  value "the suffix starts with \<open>yes\<close>". The map is a dictionary, which holds a key
  once: at the place of its first occurrence, with the value of its last occurrence
  (\<open>last_wins\<close>). That applies to the names as the icons spell them, and again to the
  names stripped and in lower case.
\<close>

definition attribute_key :: "string \<Rightarrow> string" where
  "attribute_key name = str_lower (str_strip name)"

definition retained :: "(string \<times> string) list \<Rightarrow> (string \<times> bool) list" where
  "retained tokens =
     map (\<lambda>(name, appendix). (name, startswith appendix ''yes''))
       (filter (\<lambda>(name, appendix). \<not> startswith appendix ''blank'') tokens)"

fun last_wins :: "('k \<times> 'v) list \<Rightarrow> ('k \<times> 'v) list" where
  "last_wins [] = []"
| "last_wins ((k, v) # items) =
     (k, case map_of (rev items) k of None \<Rightarrow> v | Some v' \<Rightarrow> v')
       # filter (\<lambda>(k', v'). k' \<noteq> k) (last_wins items)"

definition parsed_attributes :: "(string \<times> string) list \<Rightarrow> (pyval \<times> pyval) list" where
  "parsed_attributes tokens =
     last_wins
       (map (\<lambda>(name, allowed). (PStr (attribute_key name), PBool allowed))
          (filter (\<lambda>(name, allowed). attribute_key name \<in> fst ` set possible_attributes)
             (last_wins (retained tokens))))"

definition unknown_warnings :: "(string \<times> string) list \<Rightarrow> string list" where
  "unknown_warnings tokens =
     map (\<lambda>(name, allowed). ''Unknown attribute '' @ attribute_key name @ '', ignoring.'')
       (filter (\<lambda>(name, allowed). attribute_key name \<notin> fst ` set possible_attributes)
          (last_wins (retained tokens)))"

section \<open>A sample server\<close>

text \<open>
  Concrete collaborators, documents and worlds, on which the functions above are run.
  The collaborators know a few texts each and refuse the rest.
\<close>

definition rot13_char :: "char \<Rightarrow> char" where
  "rot13_char c =
     (case map_of (zip ''abcdefghijklmnopqrstuvwxyzABCDEFGHIJKLMNOPQRSTUVWXYZ''
                       ''nopqrstuvwxyzabcdefghijklmNOPQRSTUVWXYZABCDEFGHIJKLM'') c of
        Some d \<Rightarrow> d | None \<Rightarrow> c)"

definition sample_collab :: collab where
  "sample_collab =
     \<lparr>py_float = map_of [(''1'', 1), (''1.5'', 3 / 2), (''2'', 2), (''2.5'', 5 / 2),
                          (''3'', 3), (''3.5'', 7 / 2), (''4'', 4), (''4.5'', 9 / 2), (''5'', 5)],
      py_int = map_of [(''0'', 0), (''7'', 7), (''12'', 12)],
      py_repr = (\<lambda>v. ''<object>''),
      parse_date = (\<lambda>s. if str_strip s = ''2010-05-01'' then Inr (Date 2010 5 1)
                          else Inl ValueError),
      Point_from_string = (\<lambda>s. if s = ''N 49 45.000 E 013 22.500''
                                 then Inr (Point (199 / 4) (107 / 8)) else Inl ValueError),
      Point_call = (\<lambda>s. if s = ''49.7, 13.4'' then Inr (Point (497 / 10) (67 / 5))
                          else Inl ValueError),
      rot13 = map rot13_char,
      findall_userToken =
        (\<lambda>js. map (takeWhile (\<lambda>c. c \<noteq> CHR 0x27))
                 (drop 1 (str_split (''userToken = '' @ [CHR 0x27]) js))),
      LogType_from_filename =
        (\<lambda>f. if f \<in> set [''2'', ''3'', ''4''] then Inr f else Inl PyValueError)\<rparr>"

definition blank_page :: page where
  \<comment> \<open>a document in which every query finds nothing\<close>
  "blank_page =
     \<lparr>pmo_banner = False, pm_gccode = None, pm_h1 = None, pm_cache_by = None,
      pm_hide_details = None, pm_img_src = None, title_string = None, h2 = None,
      anchors = [], cache_size_img_src = None, star_label_alts = None,
      type_img_src = None, warning_text = None, widgets = [],
      minor_details_divs = None, uxLatLon = None, old_warning = False,
      found_status = None, user_supplied_content = [], div_hint = None,
      favorite_value = None, scripts = [], table_by_id = (\<lambda>_. None), tables = []\<rparr>"

definition sample_page :: page where
  \<comment> \<open>the details page of a cache that the user has logged with "Didn't find it"\<close>
  "sample_page =
     blank_page
     \<lparr>title_string := Some ''GC1PAR2 Prague Park (Traditional Cache)'',
      h2 := Some ''Prague Park'',
      anchors := [''profile'', ''hider''],
      cache_size_img_src := Some ''/images/icons/container/small.gif'',
      star_label_alts := Some [''2.5 out of 5'', ''1.5 out of 5''],
      type_img_src := Some ''/images/WptTypes/2.gif'',
      widgets :=
        [\<lparr>w_img_srcs = [''/images/attributes/dogs-yes.gif'',
                         ''/images/attributes/kids-no.gif'',
                         ''/images/attributes/parking-blank.gif''],
          w_anchors = 0, w_view_all_href = None\<rparr>,
         \<lparr>w_img_srcs = [], w_anchors = 1, w_view_all_href = None\<rparr>],
      minor_details_divs := Some [''A cache by hider'', ''Hidden : 2010-05-01''],
      uxLatLon := Some ''N 49 45.000 E 013 22.500'',
      found_status := Some ''Didn't find it'',
      user_supplied_content :=
        [\<lparr>uc_text = ''A walk.'', uc_html = ''<div>Long text</div>''\<rparr>,
         \<lparr>uc_text = ''Long text'', uc_html = ''<div>Long text</div>''\<rparr>],
      div_hint := Some '' Haqre gur ebpx '',
      favorite_value := Some ''7'',
      scripts := [''userToken = '' @ [CHR 0x27] @ ''ABC'' @ [CHR 0x27] @ '';'']\<rparr>"

definition sample_pm_page :: page where
  \<comment> \<open>the details page of a PM-only cache, as a basic member gets it\<close>
  "sample_pm_page =
     blank_page
     \<lparr>pmo_banner := True,
      pm_gccode := Some '' GC2PM01 '',
      pm_h1 := Some '' Members' Vault '',
      pm_cache_by := Some ''A cache by keeper'',
      pm_hide_details :=
        Some (str_join [CHR 0x0A]
                ['''', ''Difficulty'', ''3'', '''', ''Terrain'', ''4.5'', '''', ''Size'',
                 ''Regular'', '''', ''Favorites'', ''12'', '''']),
      pm_img_src := Some ''/images/WptTypes/8.gif''\<rparr>"

definition sample_site :: "page \<Rightarrow> response list \<Rightarrow> site" where
  \<comment> \<open>a server that answers every document request with the same page\<close>
  "sample_site p pages = \<lparr>html = (\<lambda>_. Some p), logbook_pages = pages\<rparr>"

definition fresh :: "pyval \<Rightarrow> world" where
  \<comment> \<open>\<open>Cache(geocaching, wp)\<close> in a session that has sent nothing yet\<close>
  "fresh wp =
     \<lparr>attrs = [A_geocaching \<mapsto> PNone, A_wp \<mapsto> wp], requests = [], warnings = []\<rparr>"

definition sample_log :: log_data where
  "sample_log = \<lparr>LogTypeImage = ''2.png'', LogText = ''TFTC'', Visited = ''2010-05-01'',
                  UserName = ''finder''\<rparr>"

definition sample_pages :: "nat list \<Rightarrow> response list" where
  \<comment> \<open>scripted logbook pages of the given sizes\<close>
  "sample_pages sizes =
     map (\<lambda>n. \<lparr>status = ''success'', msg = None, data = replicate n sample_log\<rparr>) sizes"

section \<open>Properties of the enumerations and the setters\<close>

lemmas str_defs = str_strip_def str_lower_def str_upper_def lower_char_def upper_char_def
  capitals_def smalls_def
  startswith_def str_split_def str_rsplit1_def str_join_def str_replace_def split_words_def
  is_space_def whitespace_def

text \<open>
  C8. The enumeration constructors round-trip. \<open>Type.from_filename\<close> of the value of a
  member of \<open>Type\<close> is that member, so it has the same value; no member has the
  special-cased token \<open>earthcache\<close> as its value, so this covers every member.
  \<open>Size.from_string\<close> of the value of a member of \<open>Size\<close> is that member.
\<close>

theorem enum_round_trip:
  "Type_from_filename (Type_value m) = Inr m \<and> Type_value m \<noteq> ''earthcache''
   \<and> Size_from_string (Size_value z) = Inr z"
proof -
  have "Type_from_filename (Type_value m) = Inr m \<and> Type_value m \<noteq> ''earthcache''"
    by (cases m) (simp_all add: Type_from_filename_def Type_call_def Type_members_def)
  moreover have "Size_from_string (Size_value z) = Inr z"
    by (cases z) (simp_all add: Size_from_string_def Size_call_def Size_members_def str_defs)
  ultimately show ?thesis by simp
qed

text \<open>
  The token \<open>earthcache\<close> is why the round trip is stated on members: it is read as the
  member whose value is \<open>137\<close>.
\<close>

lemma from_filename_earthcache:
  "Type_from_filename ''earthcache'' = Inr earthcache \<and> Type_value earthcache = ''137''"
  by (simp add: Type_from_filename_def Type_call_def Type_members_def)

lemma fmod_half_steps: "fmod (v * 10) 5 = 0 \<longleftrightarrow> (\<exists>k::int. v = of_int k / 2)"
proof
  assume "fmod (v * 10) 5 = 0"
  then have "v * 10 = of_int \<lfloor>v * 10 / 5\<rfloor> * 5" by (simp add: fmod_def)
  then have "v = of_int \<lfloor>v * 10 / 5\<rfloor> / 2" by simp
  then show "\<exists>k::int. v = of_int k / 2" ..
next
  assume "\<exists>k::int. v = of_int k / 2"
  then obtain k :: int where "v = of_int k / 2" ..
  then have "v * 10 / 5 = of_int k" by simp
  then have "\<lfloor>v * 10 / 5\<rfloor> = k" by simp
  with \<open>v = of_int k / 2\<close> show "fmod (v * 10) 5 = 0" by (simp add: fmod_def)
qed

lemma fmod_samples:
  "fmod 10 5 = 0" "fmod 25 5 = 0" "fmod 50 5 = 0" "fmod 23 5 \<noteq> 0"
  by code_simp+

subsection \<open>The float of an integer\<close>

text \<open>
  \<open>float_int\<close> leaves the integers below \<open>2 ^ 53\<close> as they are, keeps the sign and
  the order with respect to 1 and 5, and reaches \<open>2 ^ 1024\<close> exactly for the integers
  from \<open>2 ^ 1024 - 2 ^ 970\<close> on.
\<close>

lemma bit_length_0 [simp]: "bit_length 0 = 0"
  by (simp add: bit_length.simps)

lemma bit_length_pos: "0 < m \<Longrightarrow> bit_length m = Suc (bit_length (m div 2))"
  by (subst bit_length.simps) simp

lemma bit_length_le: "m < 2 ^ k \<Longrightarrow> bit_length m \<le> k"
proof (induction k arbitrary: m)
  case 0
  then show ?case by simp
next
  case (Suc k)
  show ?case
  proof (cases "m = 0")
    case True
    then show ?thesis by simp
  next
    case False
    from Suc.prems have "m div 2 < 2 ^ k" by simp
    from Suc.IH [OF this] False show ?thesis by (simp add: bit_length_pos)
  qed
qed

lemma bit_length_ge: "0 < m \<Longrightarrow> 2 ^ (bit_length m - 1) \<le> m"
proof (induction m rule: less_induct)
  case (less m)
  show ?case
  proof (cases "m div 2 = 0")
    case True
    with less.prems show ?thesis by (simp add: bit_length_pos)
  next
    case False
    then have pos: "0 < m div 2" by simp
    with less.prems have "m div 2 < m" by simp
    from less.IH [OF this pos] have "2 ^ (bit_length (m div 2) - 1) \<le> m div 2" .
    then have "2 * 2 ^ (bit_length (m div 2) - 1) \<le> m" by simp
    moreover from pos have "0 < bit_length (m div 2)" by (simp add: bit_length_pos)
    then have "(2::nat) * 2 ^ (bit_length (m div 2) - 1) = 2 ^ bit_length (m div 2)"
      by (cases "bit_length (m div 2)") simp_all
    ultimately show ?thesis using less.prems by (simp add: bit_length_pos)
  qed
qed

lemma round_half_even_0 [simp]: "round_half_even m 0 = m"
  by (simp add: round_half_even_def)

lemma round_half_even_ge: "(m div 2 ^ k) * 2 ^ k \<le> round_half_even m k"
  by (simp add: round_half_even_def Let_def)

lemma float_int_small: "\<bar>n\<bar> < 2 ^ 53 \<Longrightarrow> float_int n = n"
proof -
  assume "\<bar>n\<bar> < 2 ^ 53"
  then have "nat \<bar>n\<bar> < 2 ^ 53" by (simp add: nat_less_iff)
  then have "bit_length (nat \<bar>n\<bar>) \<le> 53" by (rule bit_length_le)
  then show ?thesis by (simp add: float_int_def sgn_if)
qed

lemma float_int_nonpos: "n \<le> 0 \<Longrightarrow> float_int n \<le> 0"
  by (simp add: float_int_def sgn_if mult_le_0_iff)

lemma bit_length_lt: "m < 2 ^ bit_length m"
proof (induction m rule: less_induct)
  case (less m)
  show ?case
  proof (cases "m = 0")
    case True
    then show ?thesis by simp
  next
    case False
    then have "m div 2 < m" by simp
    from less.IH [OF this] have "m div 2 < 2 ^ bit_length (m div 2)" .
    then have "m < 2 * 2 ^ bit_length (m div 2)" by simp
    with False show ?thesis by (simp add: bit_length_pos)
  qed
qed

lemma round_half_even_large:
  assumes "2 ^ 53 \<le> m"
  shows "2 ^ 52 \<le> round_half_even m (bit_length m - 53)"
proof -
  define k where "k = bit_length m - 53"
  define P :: nat where "P = 2 ^ 52"
  define Q :: nat where "Q = 2 ^ k"
  have Q: "0 < Q" by (simp add: Q_def)
  from assms have pos: "0 < m" by (rule less_le_trans [rotated]) simp
  have L: "53 < bit_length m"
  proof (rule ccontr)
    assume "\<not> 53 < bit_length m"
    then have "bit_length m \<le> 53" by simp
    then have "(2::nat) ^ bit_length m \<le> 2 ^ 53" by (rule power_increasing) simp
    with bit_length_lt [of m] have "m < 2 ^ 53" by (rule less_le_trans)
    with assms show False by linarith
  qed
  then have "bit_length m - 1 = 52 + k" by (simp add: k_def)
  then have "(2::nat) ^ (bit_length m - 1) = P * Q" by (simp only: power_add P_def Q_def)
  with bit_length_ge [OF pos] have "P * Q \<le> m" by (simp only:)
  with Q have "P \<le> m div Q" by (simp only: less_eq_div_iff_mult_less_eq)
  moreover from Q have "m div Q \<le> (m div Q) * Q" by simp
  moreover have "(m div Q) * Q \<le> round_half_even m k"
    unfolding Q_def by (rule round_half_even_ge)
  ultimately have "P \<le> round_half_even m k" by linarith
  then show ?thesis by (simp only: P_def k_def)
qed

lemma float_int_large:
  assumes "2 ^ 53 \<le> n"
  shows "2 ^ 52 \<le> float_int n"
proof -
  from assms have npos: "0 < n" by (rule less_le_trans [rotated]) simp
  from assms have "2 ^ 53 \<le> nat \<bar>n\<bar>" by (simp add: le_nat_iff)
  then have "2 ^ 52 \<le> round_half_even (nat \<bar>n\<bar>) (bit_length (nat \<bar>n\<bar>) - 53)"
    by (rule round_half_even_large)
  then have "int (2 ^ 52) \<le> int (round_half_even (nat \<bar>n\<bar>) (bit_length (nat \<bar>n\<bar>) - 53))"
    by (simp only: of_nat_le_iff)
  with npos show ?thesis by (simp add: float_int_def)
qed

lemma round_half_even_le_succ:
  "round_half_even m k \<le> (m div 2 ^ k + 1) * 2 ^ k"
  by (simp add: round_half_even_def Let_def)

lemma round_half_even_le:
  "round_half_even m (bit_length m - 53) \<le> 2 ^ bit_length m"
proof (cases "bit_length m \<le> 53")
  case True
  then have "round_half_even m (bit_length m - 53) = m" by simp
  with bit_length_lt [of m] show ?thesis by simp
next
  case False
  define k where "k = bit_length m - 53"
  define Q :: nat where "Q = 2 ^ k"
  define T :: nat where "T = 2 ^ 53"
  have Q: "0 < Q" by (simp add: Q_def)
  from False have "bit_length m = 53 + k" by (simp add: k_def)
  then have L: "(2::nat) ^ bit_length m = T * Q" by (simp only: power_add T_def Q_def)
  with bit_length_lt [of m] have "m < T * Q" by (simp only:)
  then have "m div Q < T" by (rule less_mult_imp_div_less)
  then have "m div Q + 1 \<le> T" by simp
  then have "(m div Q + 1) * Q \<le> T * Q" by (rule mult_le_mono1)
  with round_half_even_le_succ [of m k] have "round_half_even m k \<le> T * Q"
    unfolding Q_def by (rule le_trans)
  then show ?thesis by (simp only: L k_def)
qed

lemma round_half_even_ge_half:
  assumes "53 < bit_length m"
  shows "2 ^ (bit_length m - 1) \<le> round_half_even m (bit_length m - 53)"
proof -
  define k where "k = bit_length m - 53"
  define P :: nat where "P = 2 ^ 52"
  define Q :: nat where "Q = 2 ^ k"
  have Q: "0 < Q" by (simp add: Q_def)
  have pos: "0 < m"
  proof (rule ccontr)
    assume "\<not> 0 < m"
    then have "bit_length m = 0" by simp
    with assms show False by simp
  qed
  from assms have "bit_length m - 1 = 52 + k" by (simp add: k_def)
  then have L: "(2::nat) ^ (bit_length m - 1) = P * Q" by (simp only: power_add P_def Q_def)
  with bit_length_ge [OF pos] have "P * Q \<le> m" by (simp only:)
  with Q have "P \<le> m div Q" by (simp only: less_eq_div_iff_mult_less_eq)
  then have "P * Q \<le> (m div Q) * Q" by (rule mult_le_mono1)
  moreover have "(m div Q) * Q \<le> round_half_even m k"
    unfolding Q_def by (rule round_half_even_ge)
  ultimately have "P * Q \<le> round_half_even m k" by (rule le_trans)
  then show ?thesis by (simp only: L k_def)
qed

lemma round_half_even_overflow:
  "2 ^ 1024 \<le> round_half_even m (bit_length m - 53) \<longleftrightarrow> 2 ^ 1024 - 2 ^ 970 \<le> m"
proof -
  define A :: nat where "A = 2 ^ 970"
  define R where "R = round_half_even m (bit_length m - 53)"
  have A: "0 < A" by (simp add: A_def)
  have p1023: "(2::nat) ^ 1023 = 2 ^ 53 * A" by (simp add: A_def)
  have p1024: "(2::nat) ^ 1024 = 2 ^ 54 * A" by (simp add: A_def)
  have p971: "(2::nat) ^ 971 = 2 * A" by (simp add: A_def)
  consider "bit_length m \<le> 1023" | "bit_length m = 1024" | "1025 \<le> bit_length m"
    by linarith
  then have "2 ^ 54 * A \<le> R \<longleftrightarrow> 2 ^ 54 * A - A \<le> m"
  proof cases
    case 1
    then have le: "(2::nat) ^ bit_length m \<le> 2 ^ 1023" by (rule power_increasing) simp
    with round_half_even_le [of m] have "R \<le> 2 ^ 1023" unfolding R_def by (rule le_trans)
    moreover from bit_length_lt [of m] le have "m < 2 ^ 1023" by (rule less_le_trans)
    ultimately show ?thesis using A by (simp only: p1023) simp
  next
    case 3
    then have "53 < bit_length m" by simp
    from round_half_even_ge_half [OF this] have half: "2 ^ (bit_length m - 1) \<le> R"
      by (simp only: R_def)
    have pos: "0 < m"
    proof (rule ccontr)
      assume "\<not> 0 < m"
      then have "bit_length m = 0" by simp
      with 3 show False by simp
    qed
    from 3 have "1024 \<le> bit_length m - 1" by simp
    then have "(2::nat) ^ 1024 \<le> 2 ^ (bit_length m - 1)" by (rule power_increasing) simp
    with half bit_length_ge [OF pos] have "2 ^ 1024 \<le> R" "2 ^ 1024 \<le> m" by linarith+
    then show ?thesis by (simp only: p1024) simp
  next
    case 2
    define q where "q = m div (2 * A)"
    define r where "r = m mod (2 * A)"
    have m: "m = q * (2 * A) + r"
      unfolding q_def r_def by (rule div_mult_mod_eq [symmetric])
    have r: "r < 2 * A" using A by (simp add: r_def)
    from bit_length_lt [of m] 2 have "m < 2 ^ 1024" by simp
    then have "m < 2 ^ 53 * (2 * A)" by (simp only: p1024) simp
    then have q: "q < 2 ^ 53" unfolding q_def by (rule less_mult_imp_div_less)
    have R: "R = (if 2 * r > 2 * A \<or> (2 * r = 2 * A \<and> odd q) then q + 1 else q) * (2 * A)"
      by (simp only: R_def 2 round_half_even_def Let_def q_def r_def p971 [symmetric])
        (simp add: p971)
    define X where "X = q * A"
    have m': "m = 2 * X + r" by (simp add: m X_def)
    have R': "R = (if A < r \<or> (r = A \<and> odd q) then 2 * X + 2 * A else 2 * X)"
      by (simp add: R X_def algebra_simps)
    show ?thesis
    proof (cases "q = 2 ^ 53 - 1")
      case True
      then have "odd q" by simp
      moreover from True have "X + A = 2 ^ 53 * A" by (simp add: X_def algebra_simps)
      ultimately show ?thesis using R' m' r A by auto
    next
      case False
      with q have "q + 2 \<le> 2 ^ 53" by simp
      then have "(q + 2) * A \<le> 2 ^ 53 * A" by (rule mult_le_mono1)
      then have "X + 2 * A \<le> 2 ^ 53 * A" by (simp only: X_def add_mult_distrib)
      with R' m' r A show ?thesis by auto
    qed
  qed
  then show ?thesis by (simp only: R_def p1024 A_def [symmetric])
qed


lemma float_int_abs:
  "\<bar>float_int n\<bar> = int (round_half_even (nat \<bar>n\<bar>) (bit_length (nat \<bar>n\<bar>) - 53))"
  by (cases "n = 0") (simp_all add: float_int_def abs_mult round_half_even_def)

lemma float_overflow_iff:
  "float_limit \<le> \<bar>float_int n\<bar> \<longleftrightarrow> 2 ^ 1024 - 2 ^ 970 \<le> \<bar>n\<bar>"
proof -
  let ?m = "nat \<bar>n\<bar>"
  have "float_limit \<le> \<bar>float_int n\<bar>
      \<longleftrightarrow> int (2 ^ 1024) \<le> int (round_half_even ?m (bit_length ?m - 53))"
    by (simp add: float_int_abs float_limit_def)
  also have "\<dots> \<longleftrightarrow> 2 ^ 1024 \<le> round_half_even ?m (bit_length ?m - 53)"
    by (simp only: of_nat_le_iff)
  also have "\<dots> \<longleftrightarrow> 2 ^ 1024 - 2 ^ 970 \<le> ?m"
    by (rule round_half_even_overflow)
  also have "\<dots> \<longleftrightarrow> 2 ^ 1024 - 2 ^ 970 \<le> \<bar>n\<bar>"
    by (simp add: le_nat_iff)
  finally show ?thesis .
qed

lemma float_limit_gt: "(5::int) < float_limit" "2 ^ 53 < float_limit"
  by (simp_all add: float_limit_def)

lemma float_of_int_in_range:
  "1 \<le> n \<Longrightarrow> n \<le> 5 \<Longrightarrow> float_of K (PInt n) = Inr (of_int n)"
  using float_limit_gt(1) by (simp add: float_int_small)

lemma float_of_int_out_of_range:
  assumes "\<not> (1 \<le> n \<and> n \<le> 5)" and "float_of K (PInt n) = Inr v"
  shows "v < 1 \<or> 5 < v"
proof -
  from assms(2) have v: "v = of_int (float_int n)"
    by (simp split: if_splits)
  consider "n \<le> 0" | "5 < n" "n < 2 ^ 53" | "2 ^ 53 \<le> n"
    using assms(1) by linarith
  then show ?thesis
  proof cases
    case 1
    then have "float_int n \<le> 0" by (rule float_int_nonpos)
    then have "v \<le> 0" by (simp add: v)
    then show ?thesis by simp
  next
    case 2
    then have "float_int n = n" by (simp add: float_int_small)
    with 2 v show ?thesis by simp
  next
    case 3
    then have "2 ^ 52 \<le> float_int n" by (rule float_int_large)
    then have "5 < float_int n" by simp
    then show ?thesis by (simp add: v)
  qed
qed

subsection \<open>The rating setters\<close>

lemma fmod_int: "fmod (of_int n * 10) 5 = 0"
proof -
  have "(of_int n :: rat) = of_int (2 * n) / 2" by simp
  then show ?thesis by (subst fmod_half_steps) blast
qed

lemma rating_of_float:
  "difficulty_setter K (PFloat v) w =
     (if 1 \<le> v \<and> v \<le> 5 \<and> fmod (v * 10) 5 = 0
      then store A_difficulty (PFloat v) w else raise ValueError w)"
  "terrain_setter K (PFloat v) w =
     (if 1 \<le> v \<and> v \<le> 5 \<and> fmod (v * 10) 5 = 0
      then store A_terrain (PFloat v) w else raise ValueError w)"
  by (auto simp: difficulty_setter_def terrain_setter_def assign_def)

lemma rating_of_int_rounded:
  "difficulty_setter K (PInt n) w =
     (if 1 \<le> n \<and> n \<le> 5 then store A_difficulty (PFloat (of_int n)) w
      else if float_limit \<le> \<bar>float_int n\<bar> then raise PyOverflowError w
      else raise ValueError w)"
  "terrain_setter K (PInt n) w =
     (if 1 \<le> n \<and> n \<le> 5 then store A_terrain (PFloat (of_int n)) w
      else if float_limit \<le> \<bar>float_int n\<bar> then raise PyOverflowError w
      else raise ValueError w)"
proof -
  show "difficulty_setter K (PInt n) w =
     (if 1 \<le> n \<and> n \<le> 5 then store A_difficulty (PFloat (of_int n)) w
      else if float_limit \<le> \<bar>float_int n\<bar> then raise PyOverflowError w
      else raise ValueError w)"
  proof (cases "1 \<le> n \<and> n \<le> 5")
    case True
    then have "float_of K (PInt n) = Inr (of_int n)" by (intro float_of_int_in_range) simp_all
    with True show ?thesis
      by (simp add: difficulty_setter_def assign_def fmod_int del: float_of.simps)
  next
    case False
    show ?thesis
    proof (cases "float_limit \<le> \<bar>float_int n\<bar>")
      case True
      with False show ?thesis by (auto simp: difficulty_setter_def assign_def)
    next
      case no: False
      then have v: "float_of K (PInt n) = Inr (of_int (float_int n))" by simp
      from float_of_int_out_of_range [OF False v]
      have "(of_int (float_int n) :: rat) < 1 \<or> 5 < (of_int (float_int n) :: rat)" .
      with False no show ?thesis
        by (auto simp: difficulty_setter_def assign_def)
    qed
  qed
  show "terrain_setter K (PInt n) w =
     (if 1 \<le> n \<and> n \<le> 5 then store A_terrain (PFloat (of_int n)) w
      else if float_limit \<le> \<bar>float_int n\<bar> then raise PyOverflowError w
      else raise ValueError w)"
  proof (cases "1 \<le> n \<and> n \<le> 5")
    case True
    then have "float_of K (PInt n) = Inr (of_int n)" by (intro float_of_int_in_range) simp_all
    with True show ?thesis
      by (simp add: terrain_setter_def assign_def fmod_int del: float_of.simps)
  next
    case False
    show ?thesis
    proof (cases "float_limit \<le> \<bar>float_int n\<bar>")
      case True
      with False show ?thesis by (auto simp: terrain_setter_def assign_def)
    next
      case no: False
      then have v: "float_of K (PInt n) = Inr (of_int (float_int n))" by simp
      from float_of_int_out_of_range [OF False v]
      have "(of_int (float_int n) :: rat) < 1 \<or> 5 < (of_int (float_int n) :: rat)" .
      with False no show ?thesis
        by (auto simp: terrain_setter_def assign_def)
    qed
  qed
qed

lemma rating_of_int:
  "difficulty_setter K (PInt n) w =
     (if 1 \<le> n \<and> n \<le> 5 then store A_difficulty (PFloat (of_int n)) w
      else if 2 ^ 1024 - 2 ^ 970 \<le> \<bar>n\<bar> then raise PyOverflowError w
      else raise ValueError w)"
  "terrain_setter K (PInt n) w =
     (if 1 \<le> n \<and> n \<le> 5 then store A_terrain (PFloat (of_int n)) w
      else if 2 ^ 1024 - 2 ^ 970 \<le> \<bar>n\<bar> then raise PyOverflowError w
      else raise ValueError w)"
  by (simp_all only: rating_of_int_rounded float_overflow_iff)

lemma rating_of_bool:
  "difficulty_setter K (PBool b) w =
     (if b then store A_difficulty (PFloat 1) w else raise ValueError w)"
  "terrain_setter K (PBool b) w =
     (if b then store A_terrain (PFloat 1) w else raise ValueError w)"
  using fmod_int [of 1] by (simp_all add: difficulty_setter_def terrain_setter_def assign_def)

text \<open>
  The integers at the edge of the floats: up to \<open>2 ^ 53\<close> every integer is a float,
  beyond it \<open>float\<close> rounds, and it raises \<open>OverflowError\<close> exactly from
  \<open>2 ^ 1024 - 2 ^ 970\<close> on (\<open>float_overflow_iff\<close>), the first integer that rounds to
  \<open>2 ^ 1024\<close>.
\<close>

lemma float_int_samples:
  "float_int 3 = 3"
  "float_int (2 ^ 53 + 1) = 2 ^ 53"
  "float_int (2 ^ 53 + 3) = 2 ^ 53 + 4"
  "float_int (- (2 ^ 53) - 1) = - (2 ^ 53)"
  by (simp_all add: float_int_def bit_length.simps round_half_even_def)

text \<open>
  C7, as amended. For every value \<open>x\<close> assigned to \<open>difficulty\<close> or to \<open>terrain\<close>:
  a float \<open>v\<close> is stored when \<open>1 \<le> v \<le> 5\<close> and \<open>v * 10 % 5 = 0\<close>, and raises the
  validation error otherwise; the second condition says that \<open>v\<close> is a multiple of one
  half. An integer from 1 to 5 is stored as its float; any other integer raises the
  validation error, or \<open>OverflowError\<close> when it is too large for a float. \<open>True\<close> is
  stored as 1.0 and \<open>False\<close> raises the validation error. A string is converted by
  \<open>float\<close>: when that fails the builtin \<open>ValueError\<close> is raised, otherwise the float
  is treated as above. An instance of a subclass is treated as the value it extends.
  Every other value, \<open>None\<close> among them, raises \<open>TypeError\<close>. What raises stores
  nothing. So 1.0, 2.5, 5.0 and the integer 3 are accepted, and 0.5, 5.5 and 2.3 are
  rejected with the validation error.
\<close>

theorem rating_setters_accept_numbers:
  "difficulty_setter K x w =
     (case x of
        PFloat v \<Rightarrow>
          if 1 \<le> v \<and> v \<le> 5 \<and> fmod (v * 10) 5 = 0
          then store A_difficulty (PFloat v) w else raise ValueError w
      | PInt n \<Rightarrow>
          if 1 \<le> n \<and> n \<le> 5 then store A_difficulty (PFloat (of_int n)) w
          else if 2 ^ 1024 - 2 ^ 970 \<le> \<bar>n\<bar> then raise PyOverflowError w
          else raise ValueError w
      | PBool b \<Rightarrow> if b then store A_difficulty (PFloat 1) w else raise ValueError w
      | PStr s \<Rightarrow>
          (case py_float K s of
             None \<Rightarrow> raise PyValueError w
           | Some v \<Rightarrow>
               if 1 \<le> v \<and> v \<le> 5 \<and> fmod (v * 10) 5 = 0
               then store A_difficulty (PFloat v) w else raise ValueError w)
      | PSub c y \<Rightarrow> difficulty_setter K y w
      | _ \<Rightarrow> raise PyTypeError w)
   \<and> terrain_setter K x w =
     (case x of
        PFloat v \<Rightarrow>
          if 1 \<le> v \<and> v \<le> 5 \<and> fmod (v * 10) 5 = 0
          then store A_terrain (PFloat v) w else raise ValueError w
      | PInt n \<Rightarrow>
          if 1 \<le> n \<and> n \<le> 5 then store A_terrain (PFloat (of_int n)) w
          else if 2 ^ 1024 - 2 ^ 970 \<le> \<bar>n\<bar> then raise PyOverflowError w
          else raise ValueError w
      | PBool b \<Rightarrow> if b then store A_terrain (PFloat 1) w else raise ValueError w
      | PStr s \<Rightarrow>
          (case py_float K s of
             None \<Rightarrow> raise PyValueError w
           | Some v \<Rightarrow>
               if 1 \<le> v \<and> v \<le> 5 \<and> fmod (v * 10) 5 = 0
               then store A_terrain (PFloat v) w else raise ValueError w)
      | PSub c y \<Rightarrow> terrain_setter K y w
      | _ \<Rightarrow> raise PyTypeError w)
   \<and> (fmod (r * 10) 5 = 0 \<longleftrightarrow> (\<exists>k::int. r = of_int k / 2))
   \<and> snd (difficulty_setter K (PFloat 1) w) = None
   \<and> snd (difficulty_setter K (PFloat (5 / 2)) w) = None
   \<and> snd (difficulty_setter K (PFloat 5) w) = None
   \<and> snd (difficulty_setter K (PInt 3) w) = None
   \<and> snd (difficulty_setter K (PFloat (1 / 2)) w) = Some ValueError
   \<and> snd (difficulty_setter K (PFloat (11 / 2)) w) = Some ValueError
   \<and> snd (difficulty_setter K (PFloat (23 / 10)) w) = Some ValueError"
proof -
  have d: "difficulty_setter K x w =
     (case x of
        PFloat v \<Rightarrow>
          if 1 \<le> v \<and> v \<le> 5 \<and> fmod (v * 10) 5 = 0
          then store A_difficulty (PFloat v) w else raise ValueError w
      | PInt n \<Rightarrow>
          if 1 \<le> n \<and> n \<le> 5 then store A_difficulty (PFloat (of_int n)) w
          else if 2 ^ 1024 - 2 ^ 970 \<le> \<bar>n\<bar> then raise PyOverflowError w
          else raise ValueError w
      | PBool b \<Rightarrow> if b then store A_difficulty (PFloat 1) w else raise ValueError w
      | PStr s \<Rightarrow>
          (case py_float K s of
             None \<Rightarrow> raise PyValueError w
           | Some v \<Rightarrow>
               if 1 \<le> v \<and> v \<le> 5 \<and> fmod (v * 10) 5 = 0
               then store A_difficulty (PFloat v) w else raise ValueError w)
      | PSub c y \<Rightarrow> difficulty_setter K y w
      | _ \<Rightarrow> raise PyTypeError w)"
  proof (cases x)
    case (PInt n)
    then show ?thesis by (simp add: rating_of_int)
  next
    case (PFloat v)
    then show ?thesis by (simp add: rating_of_float)
  next
    case (PBool b)
    then show ?thesis by (simp add: rating_of_bool)
  next
    case (PStr s)
    then show ?thesis
      by (cases "py_float K s")
        (simp_all add: rating_of_float [symmetric] difficulty_setter_def float_str_def assign_def)
  qed (simp_all add: difficulty_setter_def assign_def)
  have t: "terrain_setter K x w =
     (case x of
        PFloat v \<Rightarrow>
          if 1 \<le> v \<and> v \<le> 5 \<and> fmod (v * 10) 5 = 0
          then store A_terrain (PFloat v) w else raise ValueError w
      | PInt n \<Rightarrow>
          if 1 \<le> n \<and> n \<le> 5 then store A_terrain (PFloat (of_int n)) w
          else if 2 ^ 1024 - 2 ^ 970 \<le> \<bar>n\<bar> then raise PyOverflowError w
          else raise ValueError w
      | PBool b \<Rightarrow> if b then store A_terrain (PFloat 1) w else raise ValueError w
      | PStr s \<Rightarrow>
          (case py_float K s of
             None \<Rightarrow> raise PyValueError w
           | Some v \<Rightarrow>
               if 1 \<le> v \<and> v \<le> 5 \<and> fmod (v * 10) 5 = 0
               then store A_terrain (PFloat v) w else raise ValueError w)
      | PSub c y \<Rightarrow> terrain_setter K y w
      | _ \<Rightarrow> raise PyTypeError w)"
  proof (cases x)
    case (PInt n)
    then show ?thesis by (simp add: rating_of_int)
  next
    case (PFloat v)
    then show ?thesis by (simp add: rating_of_float)
  next
    case (PBool b)
    then show ?thesis by (simp add: rating_of_bool)
  next
    case (PStr s)
    then show ?thesis
      by (cases "py_float K s")
        (simp_all add: rating_of_float [symmetric] terrain_setter_def float_str_def assign_def)
  qed (simp_all add: terrain_setter_def assign_def)
  have "snd (difficulty_setter K (PFloat 1) w) = None"
    "snd (difficulty_setter K (PFloat (5 / 2)) w) = None"
    "snd (difficulty_setter K (PFloat 5) w) = None"
    "snd (difficulty_setter K (PInt 3) w) = None"
    "snd (difficulty_setter K (PFloat (1 / 2)) w) = Some ValueError"
    "snd (difficulty_setter K (PFloat (11 / 2)) w) = Some ValueError"
    "snd (difficulty_setter K (PFloat (23 / 10)) w) = Some ValueError"
    by (simp_all add: rating_of_float rating_of_int fmod_samples store_def raise_def)
  with d t fmod_half_steps [of r] show ?thesis by (simp only: simp_thms)
qed

text \<open>
  C7, as the specification states it, fails: it says that every value that is not
  accepted raises the validation error. Assigning \<open>None\<close> raises \<open>TypeError\<close>, and
  assigning a string that is not a number raises the builtin \<open>ValueError\<close>, which is
  not the validation error (the validation error derives from it, not the reverse).
\<close>

theorem rating_setters_other_errors:
  "snd (difficulty_setter sample_collab PNone (fresh (PStr ''GC1PAR2''))) = Some PyTypeError
   \<and> snd (terrain_setter sample_collab PNone (fresh (PStr ''GC1PAR2''))) = Some PyTypeError
   \<and> snd (difficulty_setter sample_collab (PStr ''abc'') (fresh (PStr ''GC1PAR2'')))
       = Some PyValueError
   \<and> PyTypeError \<noteq> ValueError \<and> PyValueError \<noteq> ValueError"
  by (simp add: difficulty_setter_def terrain_setter_def assign_def raise_def float_str_def
      sample_collab_def)

text \<open>
  C10. The setters of \<open>hidden\<close>, \<open>location\<close> and \<open>original_location\<close> compare the
  exact type of the value. A value whose type is neither \<open>str\<close> nor \<open>datetime.date\<close> is
  rejected by \<open>hidden\<close> with the validation error, and a value whose type is neither
  \<open>str\<close> nor \<open>Point\<close> is rejected by \<open>location\<close>, and by \<open>original_location\<close> unless it
  is \<open>None\<close>; nothing is stored. An instance of a subclass has another type than its
  base class, so a \<open>datetime.datetime\<close> and an instance of a subclass of \<open>Point\<close> are
  rejected.
\<close>

theorem setters_compare_exact_type:
  assumes "type_of v \<noteq> T_str" and "type_of v \<noteq> T_date"
    and "type_of p \<noteq> T_str" and "type_of p \<noteq> T_Point"
  shows "hidden_setter K v w = (w, Some ValueError)
    \<and> location_setter K p w = (w, Some ValueError)
    \<and> original_location_setter K p w =
        (if p = PNone then store A_original_location PNone w else (w, Some ValueError))"
  using assms
  by (simp add: hidden_setter_def location_setter_def original_location_setter_def raise_def)

theorem setters_compare_exact_type_witness:
  "isinstance (PDatetime (Date 2020 2 29) 720) T_date
   \<and> isinstance (PSub ''MyPoint'' (PPoint (Point 50 14))) T_Point
   \<and> hidden_setter sample_collab (PDatetime (Date 2020 2 29) 720) (fresh (PStr ''GC1PAR2''))
       = (fresh (PStr ''GC1PAR2''), Some ValueError)
   \<and> location_setter sample_collab (PSub ''MyPoint'' (PPoint (Point 50 14)))
       (fresh (PStr ''GC1PAR2'')) = (fresh (PStr ''GC1PAR2''), Some ValueError)
   \<and> original_location_setter sample_collab (PSub ''MyPoint'' (PPoint (Point 50 14)))
       (fresh (PStr ''GC1PAR2'')) = (fresh (PStr ''GC1PAR2''), Some ValueError)"
  using setters_compare_exact_type [of "PDatetime (Date 2020 2 29) 720"
      "PSub ''MyPoint'' (PPoint (Point 50 14))" sample_collab "fresh (PStr ''GC1PAR2'')"]
  by (simp add: isinstance_def)

text \<open>
  The values of the exact types are stored: a date as it is, and a string after parsing.
\<close>

lemma hidden_setter_date:
  "hidden_setter K (PDate d) w = store A_hidden (PDate d) w"
  "hidden_setter K (PStr s) w =
     (case parse_date K s of Inl e \<Rightarrow> raise e w | Inr d \<Rightarrow> store A_hidden (PDate d) w)"
  by (simp_all add: hidden_setter_def assign_def py_str_def split: sum.splits)

text \<open>
  Every setter but that of \<open>attributes\<close> computes the value it will store before it
  stores anything: when it raises, the world is as it was.
\<close>

lemma setters_raise_before_storing:
  "wp_setter K v w = (w', Some e) \<Longrightarrow> w' = w"
  "name_setter K v w = (w', Some e) \<Longrightarrow> w' = w"
  "location_setter K v w = (w', Some e) \<Longrightarrow> w' = w"
  "original_location_setter K v w = (w', Some e) \<Longrightarrow> w' = w"
  "waypoints_setter v w = (w', Some e) \<Longrightarrow> w' = w"
  "type_setter v w = (w', Some e) \<Longrightarrow> w' = w"
  "state_setter v w = (w', Some e) \<Longrightarrow> w' = w"
  "found_setter v w = (w', Some e) \<Longrightarrow> w' = w"
  "size_setter v w = (w', Some e) \<Longrightarrow> w' = w"
  "difficulty_setter K v w = (w', Some e) \<Longrightarrow> w' = w"
  "terrain_setter K v w = (w', Some e) \<Longrightarrow> w' = w"
  "author_setter K v w = (w', Some e) \<Longrightarrow> w' = w"
  "hidden_setter K v w = (w', Some e) \<Longrightarrow> w' = w"
  "summary_setter K v w = (w', Some e) \<Longrightarrow> w' = w"
  "description_setter K v w = (w', Some e) \<Longrightarrow> w' = w"
  "hint_setter K v w = (w', Some e) \<Longrightarrow> w' = w"
  "favorites_setter K v w = (w', Some e) \<Longrightarrow> w' = w"
  "pm_only_setter v w = (w', Some e) \<Longrightarrow> w' = w"
  "logbook_token_setter v w = (w', Some e) \<Longrightarrow> w' = w"
  "trackable_page_url_setter v w = (w', Some e) \<Longrightarrow> w' = w"
  by (auto simp: wp_setter_def name_setter_def location_setter_def
      original_location_setter_def waypoints_setter_def type_setter_def state_setter_def
      found_setter_def size_setter_def difficulty_setter_def terrain_setter_def
      author_setter_def hidden_setter_def summary_setter_def description_setter_def
      hint_setter_def favorites_setter_def pm_only_setter_def logbook_token_setter_def
      trackable_page_url_setter_def assign_def store_def raise_def Let_def
      split: if_splits sum.splits)

text \<open>
  The \<open>attributes\<close> setter rejects a value that is not a \<open>dict\<close> before it stores
  anything, but it empties the field before it walks through the items.
\<close>

lemma attributes_setter_not_dict:
  "type_of v \<noteq> T_dict \<Longrightarrow> attributes_setter v w = (w, Some ValueError)"
  by (cases v) (simp_all add: attributes_setter_def raise_def)

text \<open>
  C5. A setter that raises leaves the field as it was. Not so for \<open>attributes\<close>: with
  the field holding \<open>{"kids": True}\<close>, assigning \<open>{"dogs": True, 5: False}\<close> raises
  \<open>AttributeError\<close> at the key \<open>5\<close>, which has no \<open>strip\<close>, and the field then holds
  \<open>{"dogs": True}\<close>: the entries walked through so far, and not the value it held before.
\<close>

theorem attributes_setter_partial:
  "snd (attributes_setter (PDict [(PStr ''dogs'', PBool True), (PInt 5, PBool False)])
         (fresh (PStr ''GC1PAR2'')
            \<lparr>attrs := (attrs (fresh (PStr ''GC1PAR2'')))
                         (A_attributes \<mapsto> PDict [(PStr ''kids'', PBool True)])\<rparr>))
     = Some PyAttributeError
   \<and> attrs (fst (attributes_setter
                   (PDict [(PStr ''dogs'', PBool True), (PInt 5, PBool False)])
                   (fresh (PStr ''GC1PAR2'')
                      \<lparr>attrs := (attrs (fresh (PStr ''GC1PAR2'')))
                                   (A_attributes \<mapsto> PDict [(PStr ''kids'', PBool True)])\<rparr>)))
       A_attributes
     = Some (PDict [(PStr ''dogs'', PBool True)])"
  by code_simp

section \<open>Properties of loading\<close>

text \<open>
  The expression assigned to \<open>found\<close> is true whenever the element is there, whatever
  its text: \<open>"Found It!" or ...\<close> is the non-empty string \<open>"Found It!"\<close>.
\<close>

lemma found_expr_element: "truthy (found_expr (Some text))"
  by (simp add: found_expr_def py_and_def py_or_def)

lemma found_expr_no_element: "\<not> truthy (found_expr None)"
  by (simp add: found_expr_def py_and_def py_or_def)

text \<open>
  C4. After a full load the found flag should be true exactly when the found-status
  text contains \<open>Found It!\<close> or \<open>Attended\<close>. The sample page carries the found-status
  text \<open>Didn't find it\<close>, which contains neither phrase; the load succeeds and sets the
  flag to true.
\<close>

theorem found_flag_ignores_text:
  "found_status sample_page = Some ''Didn't find it''
   \<and> \<not> str_contains ''Found It!'' ''Didn't find it''
   \<and> \<not> str_contains ''Attended'' ''Didn't find it''
   \<and> snd (load sample_collab (sample_site sample_page []) (fresh (PStr ''GC1PAR2''))) = None
   \<and> attrs (fst (load sample_collab (sample_site sample_page []) (fresh (PStr ''GC1PAR2''))))
        A_found = Some (PBool True)"
  by code_simp

lemma keeps_store [simp]: "keeps (store a v)"
  by (auto simp: keeps_def store_def)

lemma keeps_raise [simp]: "keeps (raise e)"
  by (simp add: keeps_def raise_def)

lemma keeps_warning [simp]: "keeps (warning m)"
  by (auto simp: keeps_def warning_def)

lemma keeps_assign: "(\<And>v. keeps (f v)) \<Longrightarrow> keeps (assign f rhs)"
  by (cases rhs) (simp_all add: assign_def)

lemma keeps_if: "keeps s \<Longrightarrow> keeps t \<Longrightarrow> keeps (if c then s else t)"
  by simp

lemma keeps_except_all: "keeps s \<Longrightarrow> keeps (except_all e s)"
  by (auto simp: keeps_def except_all_def split: prod.splits option.splits)

lemma keeps_seq: "list_all keeps ss \<Longrightarrow> keeps (seq ss)"
proof (induction ss)
  case Nil
  show ?case by (simp add: keeps_def)
next
  case (Cons s ss)
  then have s: "keeps s" and ss: "keeps (seq ss)" by simp_all
  show ?case
    unfolding keeps_def
  proof (intro allI impI)
    fix w w' r
    assume run: "seq (s # ss) w = (w', r)"
    obtain w1 r1 where first: "s w = (w1, r1)" by (cases "s w")
    with s have k1: "dom (attrs w) \<subseteq> dom (attrs w1)" "requests w1 = requests w"
      by (auto simp: keeps_def)
    show "dom (attrs w) \<subseteq> dom (attrs w') \<and> requests w' = requests w"
    proof (cases r1)
      case None
      with run first have "seq ss w1 = (w', r)" by simp
      with ss have "dom (attrs w1) \<subseteq> dom (attrs w')" "requests w' = requests w1"
        by (auto simp: keeps_def)
      with k1 show ?thesis by auto
    next
      case (Some e)
      with run first have "w' = w1" by simp
      with k1 show ?thesis by simp
    qed
  qed
qed

lemma sets_store [simp]: "sets a (store a v)"
  by (auto simp: sets_def store_def)

lemma sets_raise [simp]: "sets a (raise e)"
  by (simp add: sets_def raise_def)

lemma sets_assign: "(\<And>v. sets a (f v)) \<Longrightarrow> sets a (assign f rhs)"
  by (cases rhs) (simp_all add: assign_def sets_def raise_def)

lemma sets_if: "sets a s \<Longrightarrow> sets a t \<Longrightarrow> sets a (if c then s else t)"
  by simp

lemma sets_except_all: "sets a s \<Longrightarrow> sets a (except_all e s)"
  by (auto simp: sets_def except_all_def split: prod.splits option.splits)

lemma sets_seq:
  "i < length ss \<Longrightarrow> sets a (ss ! i) \<Longrightarrow> list_all keeps ss \<Longrightarrow> sets a (seq ss)"
proof (induction ss arbitrary: i)
  case Nil
  then show ?case by simp
next
  case (Cons s ss)
  from Cons.prems have s: "keeps s" and ss: "list_all keeps ss" by simp_all
  show ?case
    unfolding sets_def
  proof (intro allI impI)
    fix w w'
    assume run: "seq (s # ss) w = (w', None)"
    obtain w1 r1 where first: "s w = (w1, r1)" by (cases "s w")
    with run have r1: "r1 = None" and rest: "seq ss w1 = (w', None)"
      by (cases r1; simp)+
    show "attrs w' a \<noteq> None"
    proof (cases i)
      case 0
      with Cons.prems first r1 have "attrs w1 a \<noteq> None" by (auto simp: sets_def)
      moreover from keeps_seq [OF ss] rest have "dom (attrs w1) \<subseteq> dom (attrs w')"
        by (auto simp: keeps_def)
      ultimately show ?thesis by auto
    next
      case (Suc j)
      with Cons.prems have "j < length ss" "sets a (ss ! j)" by simp_all
      from Cons.IH [OF this ss] rest show ?thesis by (auto simp: sets_def)
    qed
  qed
qed


lemma keeps_attributes_loop: "keeps (attributes_loop items)"
  unfolding keeps_def
proof (intro allI impI)
  fix w w' r
  show "attributes_loop items w = (w', r) \<Longrightarrow>
          dom (attrs w) \<subseteq> dom (attrs w') \<and> requests w' = requests w"
  proof (induction items arbitrary: w)
    case Nil
    then show ?case by simp
  next
    case (Cons item items)
    obtain name allowed where item: "item = (name, allowed)" by (cases item)
    show ?case
    proof (cases "str_method name")
      case (Inl e)
      with Cons.prems item show ?thesis by simp
    next
      case (Inr s)
      show ?thesis
      proof (cases "str_lower (str_strip s) \<in> fst ` set possible_attributes")
        case True
        show ?thesis
        proof (cases "\<exists>d. attrs w A_attributes = Some (PDict d)")
          case True
          then obtain d where d: "attrs w A_attributes = Some (PDict d)" ..
          let ?w1 = "w\<lparr>attrs := (attrs w)(A_attributes \<mapsto>
                        PDict (dict_setitem d (PStr (str_lower (str_strip s))) allowed))\<rparr>"
          from Cons.prems item Inr \<open>str_lower (str_strip s) \<in> _\<close> d
          have "attributes_loop items ?w1 = (w', r)" by (simp add: Let_def)
          from Cons.IH [OF this] have "dom (attrs ?w1) \<subseteq> dom (attrs w')"
            and "requests w' = requests ?w1" by blast+
          moreover have "dom (attrs w) \<subseteq> dom (attrs ?w1)" by (auto simp: domIff)
          moreover have "requests ?w1 = requests w" by simp
          ultimately show ?thesis by (metis subset_trans)
        next
          case False
          with Cons.prems item Inr \<open>str_lower (str_strip s) \<in> _\<close> have "w' = w"
            by (auto simp: Let_def split: option.splits pyval.splits)
          then show ?thesis by simp
        qed
      next
        case False
        let ?w1 = "w\<lparr>warnings := warnings w @
                      [''Unknown attribute '' @ str_lower (str_strip s) @ '', ignoring.'']\<rparr>"
        from Cons.prems item Inr False have "attributes_loop items ?w1 = (w', r)"
          by (simp add: Let_def warning_def)
        from Cons.IH [OF this] show ?thesis by simp
      qed
    qed
  qed
qed

lemma keeps_setters [simp]:
  "keeps (wp_setter K v)" "keeps (name_setter K v)" "keeps (location_setter K v)"
  "keeps (original_location_setter K v)" "keeps (waypoints_setter v)" "keeps (type_setter v)"
  "keeps (state_setter v)" "keeps (found_setter v)" "keeps (size_setter v)"
  "keeps (difficulty_setter K v)" "keeps (terrain_setter K v)" "keeps (author_setter K v)"
  "keeps (hidden_setter K v)" "keeps (attributes_setter v)" "keeps (summary_setter K v)"
  "keeps (description_setter K v)" "keeps (hint_setter K v)" "keeps (favorites_setter K v)"
  "keeps (pm_only_setter v)" "keeps (logbook_token_setter v)"
  "keeps (trackable_page_url_setter v)"
  by (auto simp: wp_setter_def name_setter_def location_setter_def
      original_location_setter_def waypoints_setter_def type_setter_def state_setter_def
      found_setter_def size_setter_def difficulty_setter_def terrain_setter_def
      author_setter_def hidden_setter_def attributes_setter_def summary_setter_def
      description_setter_def hint_setter_def favorites_setter_def pm_only_setter_def
      logbook_token_setter_def trackable_page_url_setter_def Let_def
      keeps_attributes_loop
      intro!: keeps_assign keeps_seq split: pyval.splits)

lemma sets_setters [simp]:
  "sets A_wp (wp_setter K v)" "sets A_name (name_setter K v)"
  "sets A_location (location_setter K v)"
  "sets A_original_location (original_location_setter K v)"
  "sets A_waypoints (waypoints_setter v)" "sets A_type (type_setter v)"
  "sets A_state (state_setter v)" "sets A_found (found_setter v)" "sets A_size (size_setter v)"
  "sets A_difficulty (difficulty_setter K v)" "sets A_terrain (terrain_setter K v)"
  "sets A_author (author_setter K v)" "sets A_hidden (hidden_setter K v)"
  "sets A_summary (summary_setter K v)" "sets A_description (description_setter K v)"
  "sets A_hint (hint_setter K v)" "sets A_favorites (favorites_setter K v)"
  "sets A_pm_only (pm_only_setter v)" "sets A_logbook_token (logbook_token_setter v)"
  "sets A_trackable_page_url (trackable_page_url_setter v)"
  by (auto simp: wp_setter_def name_setter_def location_setter_def
      original_location_setter_def waypoints_setter_def type_setter_def state_setter_def
      found_setter_def size_setter_def difficulty_setter_def terrain_setter_def
      author_setter_def hidden_setter_def summary_setter_def
      description_setter_def hint_setter_def favorites_setter_def pm_only_setter_def
      logbook_token_setter_def trackable_page_url_setter_def Let_def
      intro!: sets_assign)

lemma sets_attributes_setter [simp]: "sets A_attributes (attributes_setter v)"
proof (cases v)
  case (PDict items)
  have "sets A_attributes (seq [store A_attributes (PDict []), attributes_loop items])"
    by (rule sets_seq [of 0]) (simp_all add: keeps_attributes_loop)
  with PDict show ?thesis by (simp add: attributes_setter_def)
qed (simp_all add: attributes_setter_def sets_def raise_def)

lemma keeps_basic_details: "list_all keeps (basic_details K doc)"
  by (simp add: basic_details_def Let_def keeps_assign keeps_except_all keeps_seq
      split: prod.splits)

lemma keeps_pm_details: "list_all keeps (pm_details K doc)"
  by (simp add: pm_details_def Let_def keeps_assign)

lemma keeps_remaining_details: "list_all keeps (remaining_details K doc)"
  by (simp add: remaining_details_def Let_def keeps_assign keeps_seq)

lemma keeps_load_parse: "keeps (load_parse K doc)"
  unfolding load_parse_def
  by (intro keeps_seq)
    (simp add: keeps_assign keeps_seq keeps_basic_details keeps_pm_details
      keeps_remaining_details)
lemma sets_basic_details:
  "sets A_name (seq (basic_details K doc))"
  "sets A_author (seq (basic_details K doc))"
  "sets A_size (seq (basic_details K doc))"
  "sets A_difficulty (seq (basic_details K doc))"
  "sets A_terrain (seq (basic_details K doc))"
proof -
  have len: "length (basic_details K doc) = 6"
    by (simp add: basic_details_def Let_def)
  note k = keeps_basic_details [of K doc]
  show "sets A_name (seq (basic_details K doc))"
    by (rule sets_seq [of 1, OF _ _ k])
      (simp_all add: len, simp add: basic_details_def Let_def sets_assign)
  show "sets A_author (seq (basic_details K doc))"
    by (rule sets_seq [of 2, OF _ _ k])
      (simp_all add: len, simp add: basic_details_def Let_def sets_assign)
  show "sets A_size (seq (basic_details K doc))"
    by (rule sets_seq [of 4, OF _ _ k])
      (simp_all add: len, simp add: basic_details_def Let_def sets_assign)
  have both: "sets a (seq [difficulty_setter K d, terrain_setter K t])"
    if "a = A_difficulty \<or> a = A_terrain" for a d t
    using that sets_seq [of 0 "[difficulty_setter K d, terrain_setter K t]" A_difficulty]
      sets_seq [of 1 "[difficulty_setter K d, terrain_setter K t]" A_terrain]
    by auto
  show "sets A_difficulty (seq (basic_details K doc))"
    by (rule sets_seq [of 5, OF _ _ k])
      (simp_all add: len, auto simp: basic_details_def Let_def both intro!: sets_assign)
  show "sets A_terrain (seq (basic_details K doc))"
    by (rule sets_seq [of 5, OF _ _ k])
      (simp_all add: len, auto simp: basic_details_def Let_def both intro!: sets_assign)
qed


lemma sets_remaining_details:
  assumes "a \<in> set [A_hidden, A_location, A_state, A_found, A_attributes, A_summary,
      A_description, A_hint, A_favorites, A_logbook_token, A_original_location,
      A_trackable_page_url, A_waypoints]"
  shows "sets a (seq (remaining_details K doc))"
proof -
  have len: "length (remaining_details K doc) = 15"
    by (simp add: remaining_details_def Let_def)
  note k = keeps_remaining_details [of K doc]
  have nth:
    "sets A_hidden (remaining_details K doc ! 2)"
    "sets A_location (remaining_details K doc ! 3)"
    "sets A_state (remaining_details K doc ! 4)"
    "sets A_found (remaining_details K doc ! 5)"
    "sets A_attributes (remaining_details K doc ! 6)"
    "sets A_summary (remaining_details K doc ! 7)"
    "sets A_description (remaining_details K doc ! 8)"
    "sets A_hint (remaining_details K doc ! 9)"
    "sets A_favorites (remaining_details K doc ! 10)"
    "sets A_logbook_token (remaining_details K doc ! 11)"
    "sets A_original_location (remaining_details K doc ! 12)"
    "sets A_trackable_page_url (remaining_details K doc ! 13)"
    "sets A_waypoints (remaining_details K doc ! 14)"
    by (simp_all add: remaining_details_def Let_def sets_assign)
  from assms consider "a = A_hidden" | "a = A_location" | "a = A_state" | "a = A_found"
    | "a = A_attributes" | "a = A_summary" | "a = A_description" | "a = A_hint"
    | "a = A_favorites" | "a = A_logbook_token" | "a = A_original_location"
    | "a = A_trackable_page_url" | "a = A_waypoints"
    by auto
  then show ?thesis
  proof cases
    case 1 with nth(1) show ?thesis by (intro sets_seq [of 2, OF _ _ k]) (simp_all add: len)
  next
    case 2 with nth(2) show ?thesis by (intro sets_seq [of 3, OF _ _ k]) (simp_all add: len)
  next
    case 3 with nth(3) show ?thesis by (intro sets_seq [of 4, OF _ _ k]) (simp_all add: len)
  next
    case 4 with nth(4) show ?thesis by (intro sets_seq [of 5, OF _ _ k]) (simp_all add: len)
  next
    case 5 with nth(5) show ?thesis by (intro sets_seq [of 6, OF _ _ k]) (simp_all add: len)
  next
    case 6 with nth(6) show ?thesis by (intro sets_seq [of 7, OF _ _ k]) (simp_all add: len)
  next
    case 7 with nth(7) show ?thesis by (intro sets_seq [of 8, OF _ _ k]) (simp_all add: len)
  next
    case 8 with nth(8) show ?thesis by (intro sets_seq [of 9, OF _ _ k]) (simp_all add: len)
  next
    case 9 with nth(9) show ?thesis by (intro sets_seq [of 10, OF _ _ k]) (simp_all add: len)
  next
    case 10 with nth(10) show ?thesis by (intro sets_seq [of 11, OF _ _ k]) (simp_all add: len)
  next
    case 11 with nth(11) show ?thesis by (intro sets_seq [of 12, OF _ _ k]) (simp_all add: len)
  next
    case 12 with nth(12) show ?thesis by (intro sets_seq [of 13, OF _ _ k]) (simp_all add: len)
  next
    case 13 with nth(13) show ?thesis by (intro sets_seq [of 14, OF _ _ k]) (simp_all add: len)
  qed
qed
lemma load_parse_sets:
  assumes "\<not> pmo_banner doc" and "a \<in> set lazy_fields"
  shows "sets a (load_parse K doc)"
proof -
  let ?steps = "[pm_only_setter (PBool (pmo_banner doc)),
          (if pmo_banner doc then seq (pm_details K doc) else seq (basic_details K doc)),
          assign type_setter
            (bind (attr_of (if pmo_banner doc then pm_img_src doc else type_img_src doc))
               (\<lambda>src. bind (filename_of_src src)
               (\<lambda>f. bind (Type_from_filename f) (\<lambda>t. Inr (PType t))))),
          (if pmo_banner doc then raise PMOnlyException
           else seq (remaining_details K doc))]"
  have k: "list_all keeps ?steps"
    by (simp add: keeps_assign keeps_seq keeps_basic_details keeps_pm_details
        keeps_remaining_details)
  from assms(2) consider
      (basic) "a \<in> set [A_name, A_author, A_size, A_difficulty, A_terrain]"
    | (type) "a = A_type"
    | (rest) "a \<in> set [A_hidden, A_location, A_state, A_found, A_attributes, A_summary,
        A_description, A_hint, A_favorites, A_logbook_token, A_original_location,
        A_trackable_page_url, A_waypoints]"
    by (auto simp: lazy_fields_def)
  then have "sets a (seq ?steps)"
  proof cases
    case basic
    then have "sets a (seq (basic_details K doc))"
      using sets_basic_details [of K doc] by auto
    with assms(1) show ?thesis
      by (intro sets_seq [of 1, OF _ _ k]) simp_all
  next
    case type
    then show ?thesis
      by (intro sets_seq [of 2, OF _ _ k]) (simp_all add: sets_assign)
  next
    case rest
    then have "sets a (seq (remaining_details K doc))"
      by (rule sets_remaining_details)
    with assms(1) show ?thesis
      by (intro sets_seq [of 3, OF _ _ k]) simp_all
  qed
  then show ?thesis by (simp add: load_parse_def)
qed


lemma seq_raise_last: "snd (seq (ss @ [raise e]) w) \<noteq> None"
  by (induction ss arbitrary: w) (auto simp: raise_def split: prod.splits option.splits)

lemma load_parse_pm_raises: "pmo_banner doc \<Longrightarrow> snd (load_parse K doc w) \<noteq> None"
  using seq_raise_last [of "[pm_only_setter (PBool True), seq (pm_details K doc),
          assign type_setter
            (bind (attr_of (pm_img_src doc))
               (\<lambda>src. bind (filename_of_src src)
               (\<lambda>f. bind (Type_from_filename f) (\<lambda>t. Inr (PType t)))))]" PMOnlyException w]
  by (simp add: load_parse_def)

lemma load_returns:
  assumes "load K S w = (w', None)"
  shows "list_all (\<lambda>a. attrs w' a \<noteq> None) lazy_fields"
    and "length (requests w') = Suc (length (requests w))"
proof -
  from assms obtain req doc where doc: "html S req = Some doc"
    and parse: "load_parse K doc (w\<lparr>requests := requests w @ [req]\<rparr>) = (w', None)"
    by (auto simp: load_def request_html_def split: option.splits sum.splits prod.splits)
  from parse load_parse_pm_raises [of doc K "w\<lparr>requests := requests w @ [req]\<rparr>"]
  have full: "\<not> pmo_banner doc" by auto
  from parse load_parse_sets [OF full, of _ K]
  have "attrs w' a \<noteq> None" if "a \<in> set lazy_fields" for a
    using that by (auto simp: sets_def)
  then show "list_all (\<lambda>a. attrs w' a \<noteq> None) lazy_fields"
    by (simp add: list_all_iff)
  from parse keeps_load_parse [of K doc]
  have "requests w' = requests (w\<lparr>requests := requests w @ [req]\<rparr>)"
    unfolding keeps_def by blast
  then show "length (requests w') = Suc (length (requests w))"
    by simp
qed

text \<open>
  C1. One call of \<open>load\<close> that returns has set every lazily loaded field (name,
  location, type, state, found, size, difficulty, terrain, author, hidden, attributes,
  summary, description, hint, favorites, logbook token, trackable page URL, original
  location, waypoints) and has sent one request. So when two of these fields have never
  been set and the first is read and returns, that read has called \<open>load\<close> once, and the
  read of the second returns the field without changing the world: one fetch in total.
  A \<open>load\<close> that returns has read a document without the PM-only banner, since with
  the banner it raises.
\<close>

theorem lazy_reads_fetch_once:
  assumes "f1 \<in> set lazy_fields" and "f2 \<in> set lazy_fields"
    and "attrs w f1 = None" and "attrs w f2 = None"
    and "lazy_loaded K S f1 w = (w1, Inr v1)"
  shows "load K S w = (w1, None)
    \<and> list_all (\<lambda>a. attrs w1 a \<noteq> None) lazy_fields
    \<and> length (requests w1) = Suc (length (requests w))
    \<and> (\<exists>v2. lazy_loaded K S f2 w1 = (w1, Inr v2))"
proof -
  from assms(3,5) have loaded: "load K S w = (w1, None)"
    by (auto simp: lazy_loaded_def split: prod.splits option.splits)
  from load_returns [OF this]
  have all: "list_all (\<lambda>a. attrs w1 a \<noteq> None) lazy_fields"
    and one: "length (requests w1) = Suc (length (requests w))" .
  from all assms(2) obtain v2 where "attrs w1 f2 = Some v2"
    by (auto simp: list_all_iff)
  then have "lazy_loaded K S f2 w1 = (w1, Inr v2)"
    by (simp add: lazy_loaded_def)
  with loaded all one show ?thesis by blast
qed

theorem lazy_reads_fetch_once_witness:
  "A_name \<in> set lazy_fields \<and> A_location \<in> set lazy_fields
   \<and> attrs (fresh (PStr ''GC1PAR2'')) A_name = None
   \<and> attrs (fresh (PStr ''GC1PAR2'')) A_location = None
   \<and> snd (lazy_loaded sample_collab (sample_site sample_page []) A_name
             (fresh (PStr ''GC1PAR2''))) = Inr (PStr ''Prague Park'')
   \<and> length (requests (fst (lazy_loaded sample_collab (sample_site sample_page []) A_name
             (fresh (PStr ''GC1PAR2''))))) = 1
   \<and> (\<exists>v2. lazy_loaded sample_collab (sample_site sample_page []) A_location
         (fst (lazy_loaded sample_collab (sample_site sample_page []) A_name
             (fresh (PStr ''GC1PAR2''))))
       = (fst (lazy_loaded sample_collab (sample_site sample_page []) A_name
             (fresh (PStr ''GC1PAR2''))), Inr v2))"
proof -
  let ?w = "fresh (PStr ''GC1PAR2'')"
  let ?r = "lazy_loaded sample_collab (sample_site sample_page []) A_name ?w"
  have f: "A_name \<in> set lazy_fields" "A_location \<in> set lazy_fields"
    "attrs ?w A_name = None" "attrs ?w A_location = None"
    by code_simp+
  have v: "snd ?r = Inr (PStr ''Prague Park'')" by code_simp
  then have r: "?r = (fst ?r, Inr (PStr ''Prague Park''))"
    by (metis prod.collapse)
  have "length (requests ?w) = 0" by code_simp
  with lazy_reads_fetch_once [OF f r] f v show ?thesis by simp
qed

section \<open>Loading a PM-only cache\<close>

lemma load_parse_reduced_layout:
  assumes "reduced_layout K doc code name author d t z n ty"
  shows "load_parse K doc w =
     (w\<lparr>attrs := pm_fields code name author d t z n ty (attrs w)\<rparr>, Some PMOnlyException)"
proof -
  from assms obtain tx src where
    h1: "pmo_banner doc" "pm_hide_details doc = Some tx" "pm_img_src doc = Some src"
    by (auto simp: reduced_layout_def split: option.splits)
  from assms obtain c0 n0 a0 where
    h2: "pm_gccode doc = Some c0" "code = str_strip (str_upper (str_strip c0))"
       "pm_h1 doc = Some n0" "name = str_strip (str_strip n0)"
       "pm_cache_by doc = Some a0" "author = str_strip (drop (length ''A cache by '') a0)"
    by (auto simp: reduced_layout_def)
  from assms h1 h2 have h3: "startswith code ''GC''"
    "11 < length (str_split [CHR 0x0A] tx)"
    "py_float K (str_split [CHR 0x0A] tx ! 2) = Some d" "1 \<le> d" "d \<le> 5" "fmod (d * 10) 5 = 0"
    "py_float K (str_split [CHR 0x0A] tx ! 5) = Some t" "1 \<le> t" "t \<le> 5" "fmod (t * 10) 5 = 0"
    "Size_from_string (str_split [CHR 0x0A] tx ! 8) = Inr z"
    "py_int K (str_split [CHR 0x0A] tx ! 11) = Some n"
    "bind (filename_of_src src) Type_from_filename = Inr ty"
    by (simp_all add: reduced_layout_def Let_def)
  from h3(13) obtain f where h4: "filename_of_src src = Inr f" "Type_from_filename f = Inr ty"
    by (auto simp: bind_def split: sum.splits)
  show ?thesis
    using h1 h2 h3(1-12) h4
    by (simp add: load_parse_def pm_details_def pm_fields_def Let_def assign_def bind_def
        attr_of_def index_def float_str_def int_str_def
        pm_only_setter_def wp_setter_def name_setter_def author_setter_def
        difficulty_setter_def terrain_setter_def size_setter_def favorites_setter_def
        type_setter_def store_def raise_def py_str_def)
qed


lemma load_reduced_layout:
  assumes "reduced_layout K doc code name author d t z n ty"
    and "html S = (\<lambda>_. Some doc)"
    and "attrs w A_url \<noteq> None \<or> attrs w A_wp \<noteq> None"
  shows "\<exists>req. load K S w =
     (w\<lparr>requests := requests w @ [req],
        attrs := pm_fields code name author d t z n ty (attrs w)\<rparr>, Some PMOnlyException)"
  using assms(2,3)
  by (auto simp: load_def request_html_def load_parse_reduced_layout [OF assms(1)]
      split: option.splits)

text \<open>
  C2. When the details page carries the PM-only banner and its reduced layout holds the
  eight details, \<open>load\<close> of a cache with a GC code or a URL stores the code, the name,
  the author, the difficulty, the terrain, the size, the favorite count and the type,
  sets \<open>pm_only\<close> to true, changes no other field, and raises \<open>PMOnlyException\<close>. The
  fields it has set are read afterwards without another load. Reading \<open>location\<close>,
  which was never set, loads again and raises \<open>PMOnlyException\<close>; the fields stay as
  they were.
\<close>

theorem pm_only_load:
  assumes "reduced_layout K doc code name author d t z n ty"
    and "html S = (\<lambda>_. Some doc)"
    and "attrs w A_url \<noteq> None \<or> attrs w A_wp \<noteq> None"
    and "attrs w A_location = None"
    and "load K S w = (w', r)"
  shows "r = Some PMOnlyException
    \<and> attrs w' = pm_fields code name author d t z n ty (attrs w)
    \<and> length (requests w') = Suc (length (requests w))
    \<and> list_all (\<lambda>a. \<exists>v. attrs w' a = Some v \<and> lazy_loaded K S a w' = (w', Inr v))
         [A_name, A_author, A_difficulty, A_terrain, A_size, A_favorites, A_type]
    \<and> snd (lazy_loaded K S A_location w') = Inl PMOnlyException
    \<and> attrs (fst (lazy_loaded K S A_location w')) = attrs w'"
proof -
  from load_reduced_layout [OF assms(1-3)] assms(5)
  have r: "r = Some PMOnlyException"
    and fields: "attrs w' = pm_fields code name author d t z n ty (attrs w)"
    and one: "length (requests w') = Suc (length (requests w))"
    by auto
  have reads: "list_all (\<lambda>a. \<exists>v. attrs w' a = Some v \<and> lazy_loaded K S a w' = (w', Inr v))
         [A_name, A_author, A_difficulty, A_terrain, A_size, A_favorites, A_type]"
    by (simp add: fields pm_fields_def lazy_loaded_def)
  have "attrs w' A_wp \<noteq> None" and unset: "attrs w' A_location = None"
    using assms(4) by (simp_all add: fields pm_fields_def)
  then have "attrs w' A_url \<noteq> None \<or> attrs w' A_wp \<noteq> None" by simp
  from load_reduced_layout [OF assms(1,2) this] obtain req where
    again: "load K S w' =
      (w'\<lparr>requests := requests w' @ [req],
          attrs := pm_fields code name author d t z n ty (attrs w')\<rparr>,
       Some PMOnlyException)" ..
  have same: "pm_fields code name author d t z n ty (attrs w') = attrs w'"
    by (simp add: fields pm_fields_def)
  from unset again have "snd (lazy_loaded K S A_location w') = Inl PMOnlyException"
    and "attrs (fst (lazy_loaded K S A_location w')) = attrs w'"
    by (simp_all add: lazy_loaded_def same)
  with r fields one reads show ?thesis by simp
qed

theorem pm_only_load_witness:
  "reduced_layout sample_collab sample_pm_page ''GC2PM01'' ''Members' Vault'' ''keeper''
     3 (9 / 2) regular 12 mystery
   \<and> snd (load sample_collab (sample_site sample_pm_page []) (fresh (PStr ''GC2PM01'')))
       = Some PMOnlyException
   \<and> attrs (fst (load sample_collab (sample_site sample_pm_page []) (fresh (PStr ''GC2PM01''))))
       = pm_fields ''GC2PM01'' ''Members' Vault'' ''keeper'' 3 (9 / 2) regular 12 mystery
           (attrs (fresh (PStr ''GC2PM01'')))
   \<and> snd (lazy_loaded sample_collab (sample_site sample_pm_page []) A_location
            (fst (load sample_collab (sample_site sample_pm_page [])
                    (fresh (PStr ''GC2PM01'')))))
       = Inl PMOnlyException"
proof -
  let ?K = sample_collab and ?S = "sample_site sample_pm_page []"
  let ?w = "fresh (PStr ''GC2PM01'')"
  have layout: "reduced_layout ?K sample_pm_page ''GC2PM01'' ''Members' Vault'' ''keeper''
     3 (9 / 2) regular 12 mystery"
    by code_simp
  have served: "html ?S = (\<lambda>_. Some sample_pm_page)"
    by (simp add: sample_site_def)
  have ident: "attrs ?w A_url \<noteq> None \<or> attrs ?w A_wp \<noteq> None"
    and unset: "attrs ?w A_location = None"
    by (simp_all add: fresh_def)
  have run: "load ?K ?S ?w = (fst (load ?K ?S ?w), snd (load ?K ?S ?w))"
    by simp
  from pm_only_load [OF layout served ident unset run] layout show ?thesis
    by simp
qed

section \<open>Parsing the attribute icons\<close>

lemma attributes_comprehension_tokens:
  "attributes_comprehension (map (\<lambda>(n, a). [n, a]) tokens) =
     Inr (map (\<lambda>(n, a). (PStr n, PBool (startswith a ''yes'')))
            (filter (\<lambda>(n, a). \<not> startswith a ''blank'') tokens))"
  by (induction tokens) (auto simp: bind_def unpack2_def)

lemma map_of_snoc:
  "map_of (ys @ [(k, v)]) k' =
     (case map_of ys k' of Some v' \<Rightarrow> Some v' | None \<Rightarrow> if k' = k then Some v else None)"
  by (induction ys) auto

lemma foldl_dict_setitem_last_wins:
  "foldl (\<lambda>d (k, v). dict_setitem d k v) d items =
     map (\<lambda>(k, v). (k, case map_of (rev items) k of None \<Rightarrow> v | Some v' \<Rightarrow> v')) d
     @ filter (\<lambda>(k, v). k \<notin> fst ` set d) (last_wins items)"
proof (induction items arbitrary: d)
  case Nil
  show ?case by (simp add: case_prod_unfold)
next
  case (Cons item items)
  obtain k v where item: "item = (k, v)" by (cases item)
  let ?F = "\<lambda>items. (\<lambda>(k, v). (k, case map_of (rev items) k of None \<Rightarrow> v | Some v' \<Rightarrow> v'))"
  show ?case
  proof (cases "k \<in> fst ` set d")
    case True
    let ?d = "map (\<lambda>(k', v'). if k' = k then (k', v) else (k', v')) d"
    have keys: "fst ` set ?d = fst ` set d" by force
    have d: "dict_setitem d k v = ?d" using True by (simp add: dict_setitem_def)
    have m: "map (?F items) ?d = map (?F (item # items)) d"
      by (auto simp: item map_of_snoc split: option.splits)
    have f: "filter (\<lambda>(k, v). k \<notin> fst ` set d) (last_wins (item # items)) =
        filter (\<lambda>(k, v). k \<notin> fst ` set d) (last_wins items)"
      using True by (auto simp: item intro!: filter_cong)
    show ?thesis
      using Cons.IH [of ?d] by (simp only: foldl_Cons item prod.case d keys m [unfolded item] f [unfolded item])
  next
    case False
    let ?d = "d @ [(k, v)]"
    have d: "dict_setitem d k v = ?d" using False by (simp add: dict_setitem_def)
    from False have other: "a \<noteq> k" if "(a, b) \<in> set d" for a b
      using that by force
    have m: "map (?F items) d = map (?F (item # items)) d"
      using other by (auto simp: item map_of_snoc split: option.splits)
    have step: "map (?F items) ?d = map (?F (item # items)) d
        @ [(k, case map_of (rev items) k of None \<Rightarrow> v | Some v' \<Rightarrow> v')]"
      using m by simp
    have l: "filter (\<lambda>(k', v). k' \<notin> fst ` set d) (last_wins (item # items)) =
        (k, case map_of (rev items) k of None \<Rightarrow> v | Some v' \<Rightarrow> v')
          # filter (\<lambda>(k', v). k' \<notin> fst ` set ?d) (last_wins items)"
      using False by (auto simp: item intro!: filter_cong)
    have "foldl (\<lambda>d (k, v). dict_setitem d k v) d (item # items) =
        foldl (\<lambda>d (k, v). dict_setitem d k v) ?d items"
      by (simp add: item d)
    also have "\<dots> = map (?F items) ?d
        @ filter (\<lambda>(k', v). k' \<notin> fst ` set ?d) (last_wins items)"
      by (rule Cons.IH)
    also have "\<dots> = map (?F (item # items)) d
        @ filter (\<lambda>(k', v). k' \<notin> fst ` set d) (last_wins (item # items))"
      by (simp only: step l append_assoc append_Cons append_Nil)
    finally show ?thesis .
  qed
qed

lemma dict_of_items_last_wins: "dict_of_items items = last_wins items"
  using foldl_dict_setitem_last_wins [of "[]" items] by (simp add: dict_of_items_def)


lemma last_wins_distinct: "distinct (map fst items) \<Longrightarrow> last_wins items = items"
proof (induction items)
  case Nil
  show ?case by simp
next
  case (Cons item items)
  obtain k v where item: "item = (k, v)" by (cases item)
  from Cons.prems item have new: "k \<notin> fst ` set items" and d: "distinct (map fst items)"
    by auto
  from new have "map_of (rev items) k = None"
    by (simp add: map_of_eq_None_iff)
  moreover from new have "filter (\<lambda>(k', v'). k' \<noteq> k) items = items"
    by (force simp: filter_id_conv)
  ultimately show ?case using Cons.IH [OF d] by (simp add: item)
qed

lemma map_of_inj_keys:
  "inj f \<Longrightarrow> map_of (map (\<lambda>(k, v). (f k, g v)) items) (f k) = map_option g (map_of items k)"
  by (induction items) (auto dest: injD)

lemma last_wins_map:
  assumes "inj f"
  shows "last_wins (map (\<lambda>(k, v). (f k, g v)) items) = map (\<lambda>(k, v). (f k, g v)) (last_wins items)"
proof (induction items)
  case Nil
  show ?case by simp
next
  case (Cons item items)
  obtain k v where item: "item = (k, v)" by (cases item)
  have "map_of (rev (map (\<lambda>(k, v). (f k, g v)) items)) (f k) = map_option g (map_of (rev items) k)"
    using map_of_inj_keys [OF assms, of g "rev items" k] by (simp add: rev_map)
  moreover have "filter (\<lambda>(k', v'). k' \<noteq> f k) (map (\<lambda>(k, v). (f k, g v)) (last_wins items))
      = map (\<lambda>(k, v). (f k, g v)) (filter (\<lambda>(k', v'). k' \<noteq> k) (last_wins items))"
    using assms by (simp add: filter_map o_def case_prod_unfold inj_eq)
  ultimately show ?case
    by (simp add: item Cons.IH split: option.splits)
qed

lemma attributes_loop_tokens:
  assumes "attrs w A_attributes = Some (PDict acc)"
  shows "attributes_loop (map (\<lambda>(n, b). (PStr n, PBool b)) toks) w =
     (w\<lparr>attrs := (attrs w)(A_attributes \<mapsto> PDict
           (foldl (\<lambda>d (k, v). dict_setitem d k v) acc
              (map (\<lambda>(n, b). (PStr (attribute_key n), PBool b))
                 (filter (\<lambda>(n, b). attribute_key n \<in> fst ` set possible_attributes) toks)))),
        warnings := warnings w @
           map (\<lambda>(n, b). ''Unknown attribute '' @ attribute_key n @ '', ignoring.'')
             (filter (\<lambda>(n, b). attribute_key n \<notin> fst ` set possible_attributes) toks)\<rparr>,
      None)"
  using assms
proof (induction toks arbitrary: w acc)
  case Nil
  then have "(attrs w)(A_attributes \<mapsto> PDict acc) = attrs w"
    by (simp add: fun_upd_idem)
  then show ?case by simp
next
  case (Cons tok toks)
  obtain n b where tok: "tok = (n, b)" by (cases tok)
  let ?k = "attribute_key n"
  let ?known = "\<lambda>(n, b). attribute_key n \<in> fst ` set possible_attributes"
  let ?unknown = "\<lambda>(n, b). attribute_key n \<notin> fst ` set possible_attributes"
  let ?item = "\<lambda>(n, b). (PStr (attribute_key n), PBool b)"
  let ?msg = "\<lambda>(n, b). ''Unknown attribute '' @ attribute_key n @ '', ignoring.''"
  let ?upd = "foldl (\<lambda>d (k, v). dict_setitem d k v)"
  show ?case
  proof (cases "?k \<in> fst ` set possible_attributes")
    case True
    let ?acc = "dict_setitem acc (PStr ?k) (PBool b)"
    let ?w = "w\<lparr>attrs := (attrs w)(A_attributes \<mapsto> PDict ?acc)\<rparr>"
    have a: "attrs ?w A_attributes = Some (PDict ?acc)" by simp
    have "attributes_loop (map (\<lambda>(n, b). (PStr n, PBool b)) (tok # toks)) w =
        attributes_loop (map (\<lambda>(n, b). (PStr n, PBool b)) toks) ?w"
      using Cons.prems tok True
      by (simp add: str_method_def attribute_key_def [symmetric])
    also note Cons.IH [OF a]
    also have "?w\<lparr>attrs := (attrs ?w)(A_attributes \<mapsto> PDict
           (?upd ?acc (map ?item (filter ?known toks)))),
        warnings := warnings ?w @ map ?msg (filter ?unknown toks)\<rparr>
      = w\<lparr>attrs := (attrs w)(A_attributes \<mapsto> PDict
           (?upd acc (map ?item (filter ?known (tok # toks))))),
        warnings := warnings w @ map ?msg (filter ?unknown (tok # toks))\<rparr>"
      using tok True by (simp add: fun_upd_def cong: if_cong)
    finally show ?thesis .
  next
    case False
    let ?w = "w\<lparr>warnings := warnings w @ [''Unknown attribute '' @ ?k @ '', ignoring.'']\<rparr>"
    have a: "attrs ?w A_attributes = Some (PDict acc)" using Cons.prems by simp
    have "attributes_loop (map (\<lambda>(n, b). (PStr n, PBool b)) (tok # toks)) w =
        attributes_loop (map (\<lambda>(n, b). (PStr n, PBool b)) toks) ?w"
      using tok False
      by (simp add: str_method_def attribute_key_def [symmetric] warning_def)
    also note Cons.IH [OF a]
    also have "?w\<lparr>attrs := (attrs ?w)(A_attributes \<mapsto> PDict
           (?upd acc (map ?item (filter ?known toks)))),
        warnings := warnings ?w @ map ?msg (filter ?unknown toks)\<rparr>
      = w\<lparr>attrs := (attrs w)(A_attributes \<mapsto> PDict
           (?upd acc (map ?item (filter ?known (tok # toks))))),
        warnings := warnings w @ map ?msg (filter ?unknown (tok # toks))\<rparr>"
      using tok False by (simp add: fun_upd_def cong: if_cong)
    finally show ?thesis .
  qed
qed


lemma result_collapse:
  "(case x of (w', None) \<Rightarrow> (w', None) | (w', Some e) \<Rightarrow> (w', Some e)) = x"
  by (cases x) (auto split: option.splits)

lemma attributes_of_srcs_tokens:
  assumes "icon_tokens srcs = Inr (map (\<lambda>(name, appendix). [name, appendix]) tokens)"
  shows "attributes_of_srcs srcs =
     Inr (PDict (map (\<lambda>(n, b). (PStr n, PBool b)) (last_wins (retained tokens))))"
proof -
  have "map (\<lambda>(n, a). (PStr n, PBool (startswith a ''yes'')))
          (filter (\<lambda>(n, a). \<not> startswith a ''blank'') tokens)
      = map (\<lambda>(n, b). (PStr n, PBool b)) (retained tokens)"
    by (simp add: retained_def case_prod_unfold o_def)
  moreover have "inj PStr" by (simp add: inj_def)
  ultimately show ?thesis
    by (simp add: attributes_of_srcs_def assms bind_def attributes_comprehension_tokens
        dict_of_items_last_wins last_wins_map)
qed

lemma attributes_setter_tokens:
  "attributes_setter (PDict (map (\<lambda>(n, b). (PStr n, PBool b)) toks)) w =
     (w\<lparr>attrs := (attrs w)(A_attributes \<mapsto> PDict
           (last_wins (map (\<lambda>(n, b). (PStr (attribute_key n), PBool b))
              (filter (\<lambda>(n, b). attribute_key n \<in> fst ` set possible_attributes) toks)))),
        warnings := warnings w @
           map (\<lambda>(n, b). ''Unknown attribute '' @ attribute_key n @ '', ignoring.'')
             (filter (\<lambda>(n, b). attribute_key n \<notin> fst ` set possible_attributes) toks)\<rparr>,
      None)"
proof -
  let ?w = "w\<lparr>attrs := (attrs w)(A_attributes \<mapsto> PDict [])\<rparr>"
  have a: "attrs ?w A_attributes = Some (PDict [])" by simp
  have "attributes_setter (PDict (map (\<lambda>(n, b). (PStr n, PBool b)) toks)) w =
      attributes_loop (map (\<lambda>(n, b). (PStr n, PBool b)) toks) ?w"
    by (simp add: result_collapse attributes_setter_def store_def)
  also note attributes_loop_tokens [OF a]
  also have "?w\<lparr>attrs := (attrs ?w)(A_attributes \<mapsto> PDict
           (foldl (\<lambda>d (k, v). dict_setitem d k v) []
              (map (\<lambda>(n, b). (PStr (attribute_key n), PBool b))
                 (filter (\<lambda>(n, b). attribute_key n \<in> fst ` set possible_attributes) toks)))),
        warnings := warnings ?w @
           map (\<lambda>(n, b). ''Unknown attribute '' @ attribute_key n @ '', ignoring.'')
             (filter (\<lambda>(n, b). attribute_key n \<notin> fst ` set possible_attributes) toks)\<rparr>
     = w\<lparr>attrs := (attrs w)(A_attributes \<mapsto> PDict
           (last_wins (map (\<lambda>(n, b). (PStr (attribute_key n), PBool b))
              (filter (\<lambda>(n, b). attribute_key n \<in> fst ` set possible_attributes) toks)))),
        warnings := warnings w @
           map (\<lambda>(n, b). ''Unknown attribute '' @ attribute_key n @ '', ignoring.'')
             (filter (\<lambda>(n, b). attribute_key n \<notin> fst ` set possible_attributes) toks)\<rparr>"
    by (simp add: dict_of_items_last_wins [unfolded dict_of_items_def] fun_upd_def cong: if_cong)
  finally show ?thesis .
qed

lemma parsed_attributes_distinct:
  assumes "distinct (map (\<lambda>(name, allowed). attribute_key name) (retained tokens))"
  shows "parsed_attributes tokens =
           map (\<lambda>(name, allowed). (PStr (attribute_key name), PBool allowed))
             (filter (\<lambda>(name, allowed). attribute_key name \<in> fst ` set possible_attributes)
                (retained tokens))"
    and "unknown_warnings tokens =
           map (\<lambda>(name, allowed). ''Unknown attribute '' @ attribute_key name @ '', ignoring.'')
             (filter (\<lambda>(name, allowed). attribute_key name \<notin> fst ` set possible_attributes)
                (retained tokens))"
proof -
  have keys: "map (\<lambda>(name, allowed). attribute_key name) xs = map attribute_key (map fst xs)"
    for xs :: "(string \<times> bool) list"
    by (simp add: case_prod_unfold o_def)
  from assms have "distinct (map fst (retained tokens))"
    by (simp only: keys distinct_map)
  then have r: "last_wins (retained tokens) = retained tokens"
    by (rule last_wins_distinct)
  from assms have "distinct (map (\<lambda>(name, allowed). attribute_key name)
      (filter (\<lambda>(name, allowed). attribute_key name \<in> fst ` set possible_attributes)
         (retained tokens)))"
    by (rule distinct_map_filter)
  moreover have "map fst (map (\<lambda>(name, allowed). (PStr (attribute_key name), PBool allowed)) xs)
      = map PStr (map (\<lambda>(name, allowed). attribute_key name) xs)"
    for xs :: "(string \<times> bool) list"
    by (simp add: case_prod_unfold o_def)
  ultimately have "distinct (map fst (map (\<lambda>(name, allowed). (PStr (attribute_key name), PBool allowed))
      (filter (\<lambda>(name, allowed). attribute_key name \<in> fst ` set possible_attributes)
         (retained tokens))))"
    by (simp only: distinct_map [of PStr]) (simp add: inj_on_def)
  then show "parsed_attributes tokens =
           map (\<lambda>(name, allowed). (PStr (attribute_key name), PBool allowed))
             (filter (\<lambda>(name, allowed). attribute_key name \<in> fst ` set possible_attributes)
                (retained tokens))"
    unfolding parsed_attributes_def r by (rule last_wins_distinct)
  show "unknown_warnings tokens =
           map (\<lambda>(name, allowed). ''Unknown attribute '' @ attribute_key name @ '', ignoring.'')
             (filter (\<lambda>(name, allowed). attribute_key name \<notin> fst ` set possible_attributes)
                (retained tokens))"
    unfolding unknown_warnings_def r ..
qed

text \<open>
  C9. The attribute icons of the details page are read as the specification says. When
  the file names of the icons split into the tokens \<open>(name, suffix)\<close>, assigning the
  parsed dictionary to \<open>attributes\<close> stores exactly \<open>parsed_attributes tokens\<close>, logs
  the warnings \<open>unknown_warnings tokens\<close>, changes nothing else and raises nothing: a
  token whose suffix starts with \<open>blank\<close> leaves no trace, an unknown name gives a
  warning and no entry, and a name that occurs more than once keeps the value of its
  last icon. When no two retained tokens have the same name, the map has one entry for
  each retained token of a known name, in their order, true exactly when the suffix
  starts with \<open>yes\<close>, and there is one warning for each retained token of an unknown
  name.
\<close>

theorem attribute_icons_parsed:
  assumes "icon_tokens srcs = Inr (map (\<lambda>(name, appendix). [name, appendix]) tokens)"
  shows "assign attributes_setter (attributes_of_srcs srcs) w =
           (w\<lparr>attrs := (attrs w)(A_attributes \<mapsto> PDict (parsed_attributes tokens)),
              warnings := warnings w @ unknown_warnings tokens\<rparr>, None)
         \<and> (distinct (map (\<lambda>(name, allowed). attribute_key name) (retained tokens)) \<longrightarrow>
              parsed_attributes tokens =
                map (\<lambda>(name, allowed). (PStr (attribute_key name), PBool allowed))
                  (filter (\<lambda>(name, allowed). attribute_key name \<in> fst ` set possible_attributes)
                     (retained tokens))
              \<and> unknown_warnings tokens =
                map (\<lambda>(name, allowed). ''Unknown attribute '' @ attribute_key name @ '', ignoring.'')
                  (filter (\<lambda>(name, allowed). attribute_key name \<notin> fst ` set possible_attributes)
                     (retained tokens)))"
proof -
  have "assign attributes_setter (attributes_of_srcs srcs) w =
           (w\<lparr>attrs := (attrs w)(A_attributes \<mapsto> PDict (parsed_attributes tokens)),
              warnings := warnings w @ unknown_warnings tokens\<rparr>, None)"
    by (simp only: attributes_of_srcs_tokens [OF assms] assign_def sum.case
        attributes_setter_tokens parsed_attributes_def unknown_warnings_def)
  with parsed_attributes_distinct [of tokens] show ?thesis by blast
qed


theorem attribute_icons_parsed_witness:
  "icon_tokens [''/images/attributes/dogs-yes.gif'', ''/images/attributes/kids-no.gif'',
                ''/images/attributes/parking-blank.gif'', ''/images/attributes/bogus-yes.gif'']
     = Inr (map (\<lambda>(name, appendix). [name, appendix])
         [(''dogs'', ''yes.gif''), (''kids'', ''no.gif''), (''parking'', ''blank.gif''),
          (''bogus'', ''yes.gif'')])
   \<and> distinct (map (\<lambda>(name, allowed). attribute_key name)
         (retained [(''dogs'', ''yes.gif''), (''kids'', ''no.gif''), (''parking'', ''blank.gif''),
          (''bogus'', ''yes.gif'')]))
   \<and> assign attributes_setter
        (attributes_of_srcs
           [''/images/attributes/dogs-yes.gif'', ''/images/attributes/kids-no.gif'',
            ''/images/attributes/parking-blank.gif'', ''/images/attributes/bogus-yes.gif''])
        (fresh (PStr ''GC1PAR2''))
     = (fresh (PStr ''GC1PAR2'')
          \<lparr>attrs := (attrs (fresh (PStr ''GC1PAR2'')))(A_attributes \<mapsto>
             PDict [(PStr ''dogs'', PBool True), (PStr ''kids'', PBool False)]),
           warnings := [''Unknown attribute bogus, ignoring.'']\<rparr>, None)"
proof -
  let ?srcs = "[''/images/attributes/dogs-yes.gif'', ''/images/attributes/kids-no.gif'',
    ''/images/attributes/parking-blank.gif'', ''/images/attributes/bogus-yes.gif'']"
  let ?tokens = "[(''dogs'', ''yes.gif''), (''kids'', ''no.gif''), (''parking'', ''blank.gif''),
    (''bogus'', ''yes.gif'')]"
  have t: "icon_tokens ?srcs = Inr (map (\<lambda>(name, appendix). [name, appendix]) ?tokens)"
    by code_simp
  have d: "distinct (map (\<lambda>(name, allowed). attribute_key name) (retained ?tokens))"
    by code_simp
  have r: "map (\<lambda>(name, allowed). (PStr (attribute_key name), PBool allowed))
        (filter (\<lambda>(name, allowed). attribute_key name \<in> fst ` set possible_attributes)
           (retained ?tokens))
      = [(PStr ''dogs'', PBool True), (PStr ''kids'', PBool False)]"
    by code_simp
  have u: "map (\<lambda>(name, allowed). ''Unknown attribute '' @ attribute_key name @ '', ignoring.'')
        (filter (\<lambda>(name, allowed). attribute_key name \<notin> fst ` set possible_attributes)
           (retained ?tokens))
      = [''Unknown attribute bogus, ignoring.'']"
    by code_simp
  have "warnings (fresh (PStr ''GC1PAR2'')) = []"
    by (simp add: fresh_def)
  with attribute_icons_parsed [OF t, of "fresh (PStr ''GC1PAR2'')"] t d r u
  show ?thesis by simp
qed

text \<open>
  The three tokens of the specification alone, the unknown name alone, and icons that
  repeat a name: two placeholders with the same file name leave no trace, and the later
  icon of \<open>dogs\<close> decides.
\<close>

lemma attribute_icons_example:
  "attrs (fst (assign attributes_setter
            (attributes_of_srcs [''dogs-yes'', ''kids-no'', ''parking-blank''])
            (fresh (PStr ''GC1PAR2'')))) A_attributes
     = Some (PDict [(PStr ''dogs'', PBool True), (PStr ''kids'', PBool False)])"
  "attrs (fst (assign attributes_setter (attributes_of_srcs [''bogus-yes''])
            (fresh (PStr ''GC1PAR2'')))) A_attributes = Some (PDict [])"
  "snd (assign attributes_setter (attributes_of_srcs [''bogus-yes''])
            (fresh (PStr ''GC1PAR2''))) = None"
  "attrs (fst (assign attributes_setter
            (attributes_of_srcs
               [''dogs-yes'', ''attribute-blank'', ''dogs-no'', ''attribute-blank''])
            (fresh (PStr ''GC1PAR2'')))) A_attributes
     = Some (PDict [(PStr ''dogs'', PBool False)])"
  "parsed_attributes [(''dogs'', ''yes''), (''attribute'', ''blank''), (''dogs'', ''no''),
      (''attribute'', ''blank'')] = [(PStr ''dogs'', PBool False)]"
  by code_simp+

section \<open>Properties of the generators\<close>

lemma all_ok_append:
  "all_ok (xs @ ys) = bind (all_ok xs) (\<lambda>a. bind (all_ok ys) (\<lambda>b. Inr (a @ b)))"
  by (induction xs) (simp_all add: bind_def split: sum.splits)

lemma all_ok_length: "all_ok rs = Inr vs \<Longrightarrow> length vs = length rs"
  by (induction rs arbitrary: vs) (auto simp: bind_def split: sum.splits)

lemma logs_of_page_all:
  assumes "all_ok (map (make_log K) ds) = Inr ls" and "\<not> negative limit"
  shows "logs_of_page K ds limit =
     (case limit of
        Unbounded \<Rightarrow> (ls, Unbounded, None)
      | Limit n \<Rightarrow>
          if int (length ds) \<le> n then (ls, Limit (n - int (length ds)), None)
          else (take (nat n) ls, Limit (- 1), Some StopIteration))"
  using assms
proof (induction ds arbitrary: ls limit)
  case Nil
  then show ?case by (cases limit) simp_all
next
  case (Cons d ds)
  from Cons.prems(1) obtain l ls' where l: "make_log K d = Inr l"
    and ls': "all_ok (map (make_log K) ds) = Inr ls'" and ls: "ls = l # ls'"
    by (auto simp: bind_def split: sum.splits)
  show ?case
  proof (cases limit)
    case Unbounded
    with Cons.IH [OF ls', of Unbounded] l ls show ?thesis by simp
  next
    case (Limit n)
    with Cons.prems(2) have n: "0 \<le> n" by simp
    show ?thesis
    proof (cases "n = 0")
      case True
      with Limit ls show ?thesis by simp
    next
      case False
      with n have pos: "0 < n" by simp
      then have "\<not> negative (Limit (n - 1))" by simp
      from Cons.IH [OF ls' this] Limit l ls pos show ?thesis
        by (auto simp: take_Cons' nat_diff_distrib' split: if_splits)
    qed
  qed
qed

lemma logbook_get_page_token:
  assumes "attrs w A_logbook_token = Some tkn"
    and "list_all (\<lambda>r. status r = ''success'') (logbook_pages S)"
  shows "logbook_get_page K S page pp w =
     (w\<lparr>requests := requests w @ [GetLogbook tkn (int page + 1) pp]\<rparr>,
      Inr (if page < length (logbook_pages S) then data (logbook_pages S ! page) else []))"
  using assms
  by (auto simp: logbook_get_page_def lazy_loaded_def request_json_def list_all_length)


lemma available_empty_page:
  "(if page < length (logbook_pages S) then data (logbook_pages S ! page) else []) = []
     \<Longrightarrow> available S page = []"
  by (cases "page < length (logbook_pages S)")
    (simp_all add: available_def Cons_nth_drop_Suc [symmetric])

lemma available_next_page:
  "page < length (logbook_pages S) \<Longrightarrow> data (logbook_pages S ! page) \<noteq> []
     \<Longrightarrow> available S page = data (logbook_pages S ! page) @ available S (Suc page)"
  by (simp add: available_def Cons_nth_drop_Suc [symmetric])

lemma logbook_loop_yields:
  assumes "attrs w A_logbook_token = Some tkn"
    and "list_all (\<lambda>r. status r = ''success'') (logbook_pages S)"
    and "all_ok (map (make_log K) (available S page)) = Inr ls"
    and "\<not> negative limit"
  shows "\<exists>w'. logbook_loop K S page pp limit w = (limit_take limit ls, Some StopIteration, w')"
  using assms(1,3,4)
proof (induction k \<equiv> "length (logbook_pages S) - page" arbitrary: page limit w ls)
  case 0
  then have "available S page = []"
    by (simp add: available_empty_page)
  with "0.prems"(2) have "ls = []" by simp
  moreover from 0 have "logbook_get_page K S page pp w =
     (w\<lparr>requests := requests w @ [GetLogbook tkn (int page + 1) pp]\<rparr>, Inr [])"
    by (simp add: logbook_get_page_token [OF _ assms(2)])
  ultimately show ?case
    by (cases limit) (simp_all add: logbook_loop.simps [of K S page])
next
  case (Suc k)
  then have in_range: "page < length (logbook_pages S)" by simp
  let ?w = "w\<lparr>requests := requests w @ [GetLogbook tkn (int page + 1) pp]\<rparr>"
  let ?page = "data (logbook_pages S ! page)"
  from Suc.prems(1) in_range have got: "logbook_get_page K S page pp w = (?w, Inr ?page)"
    by (simp add: logbook_get_page_token [OF _ assms(2)])
  show ?case
  proof (cases "?page = []")
    case True
    with in_range have "available S page = []" by (simp add: available_empty_page)
    with Suc.prems(2) have "ls = []" by simp
    with got True show ?thesis
      by (cases limit) (simp_all add: logbook_loop.simps [of K S page])
  next
    case False
    with in_range have "available S page = ?page @ available S (Suc page)"
      by (rule available_next_page)
    with Suc.prems(2) obtain ls1 ls2 where ls1: "all_ok (map (make_log K) ?page) = Inr ls1"
      and ls2: "all_ok (map (make_log K) (available S (Suc page))) = Inr ls2"
      and ls: "ls = ls1 @ ls2"
      by (auto simp: all_ok_append bind_def split: sum.splits)
    from all_ok_length [OF ls1] have len: "length ls1 = length ?page" by simp
    note page = logs_of_page_all [OF ls1 Suc.prems(3)]
    from Suc.hyps(2) have k: "k = length (logbook_pages S) - Suc page" by simp
    have tok: "attrs ?w A_logbook_token = Some tkn" using Suc.prems(1) by simp
    show ?thesis
    proof (cases limit)
      case Unbounded
      from Suc.hyps(1) [OF k tok ls2, of Unbounded] obtain w' where
        "logbook_loop K S (Suc page) pp Unbounded ?w = (ls2, Some StopIteration, w')"
        by auto
      with got False page Unbounded ls show ?thesis
        by (simp add: logbook_loop.simps [of K S page])
    next
      case (Limit n)
      show ?thesis
      proof (cases "int (length ?page) \<le> n")
        case True
        then have "\<not> negative (Limit (n - int (length ?page)))" by simp
        from Suc.hyps(1) [OF k tok ls2 this] obtain w' where
          "logbook_loop K S (Suc page) pp (Limit (n - int (length ?page))) ?w =
             (take (nat (n - int (length ?page))) ls2, Some StopIteration, w')"
          by auto
        moreover from True len have "take (nat n) (ls1 @ ls2) =
            ls1 @ take (nat (n - int (length ?page))) ls2"
          by (simp add: nat_diff_distrib')
        ultimately show ?thesis
          using got False page Limit ls True
          by (simp add: logbook_loop.simps [of K S page])
      next
        case False
        with len have "take (nat n) (ls1 @ ls2) = take (nat n) ls1" by simp
        with got \<open>?page \<noteq> []\<close> page Limit ls False show ?thesis
          by (simp add: logbook_loop.simps [of K S page])
      qed
    qed
  qed
qed

text \<open>
  The body of \<open>load_logbook\<close> has no way out of its loop but a \<open>raise\<close>: the generator
  is never exhausted by a return.
\<close>

lemma logbook_loop_raises: "fst (snd (logbook_loop K S page pp limit w)) \<noteq> None"
proof (induction K S page pp limit w rule: logbook_loop.induct)
  case (1 K S page per_page limit w)
  show ?case
  proof (cases "logbook_get_page K S page per_page w")
    case (Pair w' r)
    show ?thesis
    proof (cases r)
      case (Inl e)
      with Pair show ?thesis by (simp add: logbook_loop.simps [of K S page])
    next
      case (Inr logbook_page)
      show ?thesis
      proof (cases "logbook_page = []")
        case True
        with Pair Inr show ?thesis by (simp add: logbook_loop.simps [of K S page])
      next
        case False
        obtain ls limit' e where page: "logs_of_page K logbook_page limit = (ls, limit', e)"
          by (cases "logs_of_page K logbook_page limit") auto
        show ?thesis
        proof (cases e)
          case None
          from "1.IH" [OF Pair [symmetric] Inr False page [symmetric] refl None]
          have "fst (snd (logbook_loop K S (page + 1) per_page limit' w')) \<noteq> None" .
          with Pair Inr False page None show ?thesis
            by (cases "logbook_loop K S (page + 1) per_page limit' w'")
              (auto simp: logbook_loop.simps [of K S page])
        next
          case (Some x)
          with Pair Inr False page show ?thesis
            by (simp add: logbook_loop.simps [of K S page])
        qed
      qed
    qed
  qed
qed

lemma load_logbook_never_exhausted:
  "fst (snd (load_logbook K S limit w)) \<noteq> Exhausted"
proof -
  obtain ls r w' where body: "load_logbook_body K S limit w = (ls, r, w')"
    by (cases "load_logbook_body K S limit w") auto
  have "r \<noteq> None"
  proof (cases "format_self w")
    case None
    with body logbook_loop_raises [of K S 0 "min_limit limit 100" limit w]
    show ?thesis by (auto simp: load_logbook_body_def)
  next
    case (Some e)
    then have "load_logbook_body K S limit w = ([], Some e, w)"
      by (simp add: load_logbook_body_def)
    with body show ?thesis by auto
  qed
  then obtain e where "r = Some e" by auto
  with body show ?thesis
    by (cases e) (simp_all add: load_logbook_def)
qed

lemma load_logbook_yields:
  assumes "attrs w A_logbook_token = Some tkn"
    and "list_all (\<lambda>r. status r = ''success'') (logbook_pages S)"
    and "all_ok (map (make_log K) (available S 0)) = Inr ls"
    and "\<not> negative limit"
    and "format_self w = None"
  shows "\<exists>w'. load_logbook K S limit w = (limit_take limit ls, Raises RuntimeError, w')"
    and "\<exists>w'. load_logbook_legacy K S limit w = (limit_take limit ls, Exhausted, w')"
    and "length (limit_take limit ls) =
           (case limit of Unbounded \<Rightarrow> length (available S 0)
            | Limit n \<Rightarrow> min (nat n) (length (available S 0)))"
proof -
  from logbook_loop_yields [OF assms(1-4), of "min_limit limit 100"] obtain w' where
    "load_logbook_body K S limit w = (limit_take limit ls, Some StopIteration, w')"
    by (auto simp: load_logbook_body_def assms(5))
  then show "\<exists>w'. load_logbook K S limit w = (limit_take limit ls, Raises RuntimeError, w')"
    and "\<exists>w'. load_logbook_legacy K S limit w = (limit_take limit ls, Exhausted, w')"
    by (simp_all add: load_logbook_def load_logbook_legacy_def)
  from all_ok_length [OF assms(3)]
  show "length (limit_take limit ls) =
           (case limit of Unbounded \<Rightarrow> length (available S 0)
            | Limit n \<Rightarrow> min (nat n) (length (available S 0)))"
    by (cases limit) simp_all
qed

text \<open>
  C3. The generator of \<open>load_logbook\<close> should yield \<open>min(limit, available)\<close> logs and
  then end by normal exhaustion. It yields these logs (\<open>load_logbook_yields\<close>), but it
  leaves its loop by \<open>raise StopIteration()\<close>, which reaches the consumer as
  \<open>RuntimeError\<close>. With scripted pages of 25, 25 and 0 entries and the limit 40, on a
  fresh cache: 40 logs are yielded, three requests are sent (the details page for the
  token and two logbook pages), and the consumer gets \<open>RuntimeError\<close>.
\<close>

theorem load_logbook_raises_RuntimeError:
  "(case load_logbook sample_collab (sample_site sample_page (sample_pages [25, 25, 0]))
           (Limit 40) (fresh (PStr ''GC1PAR2'')) of
      (logs, out, w) \<Rightarrow> (length logs, out, length (requests w)))
     = (40, Raises RuntimeError, 3)"
  by code_simp

text \<open>Before Python 3.7 the same run ends by exhaustion.\<close>

lemma load_logbook_legacy_ends:
  "(case load_logbook_legacy sample_collab (sample_site sample_page (sample_pages [25, 25, 0]))
           (Limit 40) (fresh (PStr ''GC1PAR2'')) of
      (logs, out, w) \<Rightarrow> (length logs, out, length (requests w)))
     = (40, Exhausted, 3)"
  by code_simp

lemma load_trackables_absent_url:
  assumes "lazy_loaded K S A_trackable_page_url (fst (store A_trackables (PList []) w))
      = (w1, Inr url)"
    and "\<not> truthy url"
    and "format_self w = None"
  shows "load_trackables_body K S limit w = ([], Some StopIteration, w1)"
    and "load_trackables K S limit w = ([], Raises RuntimeError, w1)"
  using assms
  by (simp_all add: load_trackables_def load_trackables_body_def store_def)

text \<open>
  C6. When the trackable page URL resolves to \<open>None\<close>, the generator of
  \<open>load_trackables\<close> should be empty and end cleanly without fetching a listing. On a
  fresh cache whose details page lists fewer than three inventory links, it yields
  nothing and sends only the request for the details page, but it ends by
  \<open>raise StopIteration()\<close>, which reaches the consumer as \<open>RuntimeError\<close>.
\<close>

theorem load_trackables_raises_RuntimeError:
  "(case load_trackables sample_collab (sample_site sample_page []) Unbounded
           (fresh (PStr ''GC1PAR2'')) of
      (ts, out, w) \<Rightarrow> (ts, out, requests w, attrs w A_trackable_page_url))
     = ([], Raises RuntimeError, [GetDetails (PStr ''GC1PAR2'')], Some PNone)"
  by code_simp

text \<open>Before Python 3.7 the same run ends by exhaustion.\<close>

lemma load_trackables_legacy_ends:
  "(case load_trackables_legacy sample_collab (sample_site sample_page []) Unbounded
           (fresh (PStr ''GC1PAR2'')) of
      (ts, out, w) \<Rightarrow> (ts, out, requests w, attrs w A_trackable_page_url))
     = ([], Exhausted, [GetDetails (PStr ''GC1PAR2'')], Some PNone)"
  by code_simp

end
